theory Spec2Isabelle
  imports Complex_Main "HOL-Library.Word"
begin

section \<open>JavaScript values used by the history service\<close>

text \<open>
  A JavaScript string is a sequence of UTF-16 code units. \<open>js\<close> embeds an ASCII
  literal, so that \<open>js ''b''\<close> is the string \<^verbatim>\<open>"b"\<close>.
\<close>

type_synonym js_string = "16 word list"

definition js :: "string \<Rightarrow> js_string" where
  "js s = map of_char s"

text \<open>
  \<^verbatim>\<open>String.prototype.trim\<close> strips WhiteSpace and LineTerminator code points from both
  ends: TAB, LF, VT, FF, CR, SP, NBSP, the other space separators (category Zs),
  LS, PS and the byte order mark. All of them are single code units.
\<close>

definition white_space :: "16 word list" where
  "white_space =
     [0x0009, 0x000A, 0x000B, 0x000C, 0x000D, 0x0020, 0x00A0, 0x1680,
      0x2000, 0x2001, 0x2002, 0x2003, 0x2004, 0x2005, 0x2006, 0x2007,
      0x2008, 0x2009, 0x200A, 0x2028, 0x2029, 0x202F, 0x205F, 0x3000, 0xFEFF]"

definition isWhiteSpace :: "16 word \<Rightarrow> bool" where
  "isWhiteSpace c = (c \<in> set white_space)"

definition trim :: "js_string \<Rightarrow> js_string" where
  "trim s = rev (dropWhile isWhiteSpace (rev (dropWhile isWhiteSpace s)))"

text \<open>
  The values \<^verbatim>\<open>JSON.parse\<close> can return. An object is the list of its own properties.
  Numbers are the rationals (every finite double is one); the service only stores
  integers and only tests a parsed number for being zero.
\<close>

datatype json =
    JNull
  | JBool bool
  | JNum rat
  | JStr js_string
  | JArr "json list"
  | JObj "(js_string \<times> json) list"

text \<open>\<^verbatim>\<open>!blob\<close> is true for the falsy values: null, false, 0 and the empty string.\<close>

fun truthy :: "json \<Rightarrow> bool" where
  "truthy JNull = False"
| "truthy (JBool b) = b"
| "truthy (JNum n) = (n \<noteq> 0)"
| "truthy (JStr s) = (s \<noteq> [])"
| "truthy (JArr xs) = True"
| "truthy (JObj kvs) = True"

text \<open>
  \<^verbatim>\<open>blob.items\<close>: the property of a parsed object; \<^verbatim>\<open>undefined\<close> (\<open>None\<close>) on an
  object without it and on every truthy primitive and array, whose prototypes have no
  \<^verbatim>\<open>items\<close>.
\<close>

fun get_items :: "json \<Rightarrow> json option" where
  "get_items (JObj kvs) = map_of kvs (js ''items'')"
| "get_items v = None"

section \<open>The persistence collaborator\<close>

text \<open>
  \<^verbatim>\<open>localStorage\<close> holds text under the service's one key
  \<^verbatim>\<open>'bauklank-serial-command-history'\<close>; the storage state is what is under that key,
  \<open>None\<close> when the key is absent. The text format itself belongs to the platform's
  \<^verbatim>\<open>JSON.stringify\<close> and \<^verbatim>\<open>JSON.parse\<close>, which are not code of the repository: a
  stored text is represented by what \<^verbatim>\<open>JSON.parse\<close> makes of it, so that parsing the
  text \<^verbatim>\<open>JSON.stringify\<close> wrote gives the value back. The empty text is kept apart,
  because \<^verbatim>\<open>load\<close> tests it before parsing.
\<close>

datatype raw_text =
    EmptyText
  | NotJSON
  | JSONText json

datatype js_exception = SyntaxError

type_synonym storage = "raw_text option"

definition getItem :: "storage \<Rightarrow> raw_text option" where
  "getItem st = st"

definition setItem :: "storage \<Rightarrow> raw_text \<Rightarrow> storage" where
  "setItem st txt = Some txt"

definition removeItem :: "storage \<Rightarrow> storage" where
  "removeItem st = None"

fun JSON_parse :: "raw_text \<Rightarrow> js_exception + json" where
  "JSON_parse EmptyText = Inl SyntaxError"
| "JSON_parse NotJSON = Inl SyntaxError"
| "JSON_parse (JSONText v) = Inr v"

definition JSON_stringify :: "json \<Rightarrow> raw_text" where
  "JSON_stringify v = JSONText v"

section \<open>HistoryService\<close>

definition version :: rat where
  "version = 1"

text \<open>
  The body of the \<^verbatim>\<open>try\<close> block of \<^verbatim>\<open>load\<close>. The array is returned as it was parsed:
  the cast \<^verbatim>\<open>as string[]\<close> checks nothing, so its elements are JSON values.
\<close>

definition load_try :: "storage \<Rightarrow> js_exception + json list" where
  "load_try st =
     (case getItem st of
        None \<Rightarrow> Inr []
      | Some raw \<Rightarrow>
          if raw = EmptyText then Inr []
          else
            (case JSON_parse raw of
               Inl e \<Rightarrow> Inl e
             | Inr blob \<Rightarrow>
                 if \<not> truthy blob then Inr []
                 else
                   (case get_items blob of
                      Some (JArr items) \<Rightarrow> Inr items
                    | _ \<Rightarrow> Inr [])))"

text \<open>\<^verbatim>\<open>load\<close>: the \<^verbatim>\<open>catch\<close> turns every exception of the body into \<^verbatim>\<open>[]\<close>.\<close>

definition load :: "storage \<Rightarrow> json list" where
  "load st = (case load_try st of Inl e \<Rightarrow> [] | Inr items \<Rightarrow> items)"

text \<open>\<^verbatim>\<open>save\<close>; \<open>now\<close> is the value of \<^verbatim>\<open>Date.now()\<close>.\<close>

definition save :: "storage \<Rightarrow> json list \<Rightarrow> int \<Rightarrow> storage" where
  "save st items now =
     setItem st
       (JSON_stringify
          (JObj [(js ''version'', JNum version),
                 (js ''items'', JArr items),
                 (js ''updatedAt'', JNum (of_int now))]))"

definition clear :: "storage \<Rightarrow> storage" where
  "clear st = removeItem st"

text \<open>
  The options of \<^verbatim>\<open>pushFront\<close>; a field that is \<open>None\<close> is \<^verbatim>\<open>undefined\<close>. The \<^verbatim>\<open>max\<close>
  option is an integer here (a fractional \<^verbatim>\<open>max\<close> is outside the model).
\<close>

record push_opts =
  dedupeHead :: "bool option"
  max_opt :: "int option"

text \<open>\<^verbatim>\<open>opts?.dedupeHead ?? true\<close>\<close>

definition pushFront_dedupeHead :: "push_opts option \<Rightarrow> bool" where
  "pushFront_dedupeHead opts =
     (case opts of
        None \<Rightarrow> True
      | Some opt \<Rightarrow> (case dedupeHead opt of None \<Rightarrow> True | Some b \<Rightarrow> b))"

text \<open>\<^verbatim>\<open>Math.max(1, opts?.max ?? 50)\<close>, the constant \<^verbatim>\<open>max\<close> of \<^verbatim>\<open>pushFront\<close>\<close>

definition pushFront_max :: "push_opts option \<Rightarrow> int" where
  "pushFront_max opts =
     max 1 (case opts of
              None \<Rightarrow> 50
            | Some opt \<Rightarrow> (case max_opt opt of None \<Rightarrow> 50 | Some m \<Rightarrow> m))"

text \<open>
  \<^verbatim>\<open>items[0] === trimmed\<close>: \<^verbatim>\<open>undefined\<close> on the empty array, and a value that is not
  a string is never strictly equal to one.
\<close>

fun head_is :: "json list \<Rightarrow> js_string \<Rightarrow> bool" where
  "head_is [] t = False"
| "head_is (x # xs) t = (x = JStr t)"

text \<open>
  \<^verbatim>\<open>if (filtered.length > max) filtered.length = max\<close>; \<^verbatim>\<open>pushFront\<close> calls it with
  its \<^verbatim>\<open>max\<close>, which is at least 1.
\<close>

definition truncate_to :: "int \<Rightarrow> json list \<Rightarrow> json list" where
  "truncate_to m xs = (if int (length xs) > m then take (nat m) xs else xs)"

text \<open>\<^verbatim>\<open>pushFront\<close> returns the list and the storage it leaves.\<close>

definition pushFront ::
  "storage \<Rightarrow> int \<Rightarrow> js_string \<Rightarrow> push_opts option \<Rightarrow> json list \<times> storage" where
  "pushFront st now cmd opts =
     (let items = load st;
          trimmed = trim cmd
      in if trimmed = [] then (items, st)
         else if pushFront_dedupeHead opts \<and> head_is items trimmed then (items, st)
         else
           (let filtered =
                  truncate_to (pushFront_max opts)
                    (JStr trimmed # filter (\<lambda>i. i \<noteq> JStr trimmed) items)
            in (filtered, save st filtered now)))"

text \<open>
  A sequence of calls, each with its command, its options and its clock value; the
  result lists what each call returned and the storage it left.
\<close>

fun pushFront_calls ::
  "storage \<Rightarrow> (js_string \<times> push_opts option \<times> int) list \<Rightarrow> (json list \<times> storage) list" where
  "pushFront_calls st [] = []"
| "pushFront_calls st ((cmd, opts, now) # cs) =
     (let r = pushFront st now cmd opts in r # pushFront_calls (snd r) cs)"

text \<open>An entry as \<^verbatim>\<open>pushFront\<close> stores it: a string that is non-empty and trimmed.\<close>

fun trimmed_entry :: "json \<Rightarrow> bool" where
  "trimmed_entry (JStr t) = (t \<noteq> [] \<and> trim t = t)"
| "trimmed_entry v = False"

section \<open>AppComponent: history navigation\<close>

text \<open>
  The fields \<^verbatim>\<open>handleKeyDown\<close> works on. It never inspects an entry, so the entries
  are of any type \<open>'v\<close>. A text field holds \<open>None\<close> when the code has assigned
  \<^verbatim>\<open>undefined\<close> to it, which is what an index outside the array reads.
\<close>

datatype key = ArrowUp | ArrowDown | OtherKey

record 'v app_component =
  commandHistory :: "'v list"
  historyIndex :: int
  tempInputBeforeHistory :: "'v option"
  inputText :: "'v option"

text \<open>\<^verbatim>\<open>this.commandHistory[this.historyIndex]\<close>\<close>

definition js_index :: "'v list \<Rightarrow> int \<Rightarrow> 'v option" where
  "js_index xs i = (if 0 \<le> i \<and> i < int (length xs) then Some (xs ! nat i) else None)"

definition handleKeyDown :: "key \<Rightarrow> 'v app_component \<Rightarrow> 'v app_component" where
  "handleKeyDown k s =
     (case k of
        ArrowUp \<Rightarrow>
          (let s1 = (if historyIndex s = - 1
                     then s\<lparr>tempInputBeforeHistory := inputText s\<rparr> else s)
           in if historyIndex s1 < int (length (commandHistory s1)) - 1
              then s1\<lparr>historyIndex := historyIndex s1 + 1,
                      inputText := js_index (commandHistory s1) (historyIndex s1 + 1)\<rparr>
              else s1)
      | ArrowDown \<Rightarrow>
          (if historyIndex s > 0
           then s\<lparr>historyIndex := historyIndex s - 1,
                   inputText := js_index (commandHistory s) (historyIndex s - 1)\<rparr>
           else if historyIndex s = 0
           then s\<lparr>historyIndex := - 1, inputText := tempInputBeforeHistory s\<rparr>
           else s)
      | OtherKey \<Rightarrow> s)"

section \<open>SerialService\<close>

text \<open>
  An exception is either raised by the platform (\<open>Thrown\<close>, carrying the text
  \<^verbatim>\<open>String(err)\<close> gives for it) or made by the service with \<^verbatim>\<open>new Error(message)\<close>.
  The service tells its errors apart by their messages only; the names below are the
  specification's names for them.
\<close>

datatype js_error = Thrown js_string | JsError js_string

fun String_err :: "js_error \<Rightarrow> js_string" where
  "String_err (Thrown txt) = txt"
| "String_err (JsError msg) = (if msg = [] then js ''Error'' else js ''Error: '' @ msg)"

definition PortNotStreamable :: js_error where
  "PortNotStreamable = JsError (js ''Selected serial port is not readable/writable.'')"

definition OpenFailed :: "js_error \<Rightarrow> js_error" where
  "OpenFailed err = JsError (js ''Failed to open serial port: '' @ String_err err)"

definition NotConnected :: js_error where
  "NotConnected = JsError (js ''Not connected to a serial port.'')"

definition SendFailed :: "js_error \<Rightarrow> js_error" where
  "SendFailed err = JsError (js ''Failed to send data: '' @ String_err err)"

text \<open>
  What the service does to the outside, in order: the calls it makes on the platform's
  objects and the values it publishes on its subjects. A reader or writer is named by
  the port whose stream it locks; the service holds at most one of each. \<open>LogNext\<close> is
  a text published on \<^verbatim>\<open>log$\<close>.
\<close>

type_synonym port_id = nat

datatype event =
    ReaderCancel port_id
  | ReaderReleaseLock port_id
  | ReaderRead port_id
  | WriterClose port_id
  | WriterReleaseLock port_id
  | WriterWrite port_id js_string
  | PortOpen port_id int
  | PortClose port_id
  | GetWriter port_id
  | GetReader port_id
  | GetPorts
  | ConnectedNext bool
  | BaudNext int
  | PairedNext bool
  | LogNext js_string

text \<open>
  The platform's answers are inputs of the model. Each answer may depend on everything
  the service has done so far (the trace at the time of the call): \<open>None\<close> is a call
  that succeeds, \<open>Some err\<close> one that throws or rejects with \<open>err\<close>. The calls of
  \<^verbatim>\<open>disconnect\<close> whose exceptions are swallowed need no answer. Every promise of the
  platform is taken to settle.
\<close>

record platform =
  isSupported :: bool
  getPorts :: "event list \<Rightarrow> js_error + port_id list"
  port_open :: "event list \<Rightarrow> port_id \<Rightarrow> int \<Rightarrow> js_error option"
  port_readable :: "event list \<Rightarrow> port_id \<Rightarrow> bool"
  port_writable :: "event list \<Rightarrow> port_id \<Rightarrow> bool"
  getWriter :: "event list \<Rightarrow> port_id \<Rightarrow> js_error option"
  getReader :: "event list \<Rightarrow> port_id \<Rightarrow> js_error option"
  writer_write :: "event list \<Rightarrow> port_id \<Rightarrow> js_string \<Rightarrow> js_error option"

text \<open>
  The service's fields; \<open>_val\<close> is the current value of the subject of that name
  (\<^verbatim>\<open>connected$\<close>, \<^verbatim>\<open>baud$\<close>, \<^verbatim>\<open>pairedPortsAvailable$\<close>), and \<open>trace\<close> the events so far.
  The definitions of this section run a method from its call to its return with no
  other task of the service taking a step at its \<^verbatim>\<open>await\<close>s. This is the run of a
  call made while no other call and no read loop is pending, and one of the runs
  otherwise; the section on tasks below takes the \<^verbatim>\<open>await\<close>s one by one, and lemma
  \<open>disconnect_uninterrupted\<close> shows that \<open>disconnect\<close> is the schedule of the tasks in
  which the steps of one \<^verbatim>\<open>disconnect\<close> follow each other.
\<close>

record serial_service =
  port :: "port_id option"
  reader :: "port_id option"
  writer :: "port_id option"
  connected_val :: bool
  baud_val :: int
  pairedPortsAvailable_val :: bool
  trace :: "event list"

definition emit :: "event \<Rightarrow> serial_service \<Rightarrow> serial_service" where
  "emit e s = s\<lparr>trace := trace s @ [e]\<rparr>"

definition checkPairedPorts :: "platform \<Rightarrow> serial_service \<Rightarrow> serial_service" where
  "checkPairedPorts env s =
     (if \<not> isSupported env then s
      else
        (case getPorts env (trace s) of
           Inr ports \<Rightarrow>
             emit (PairedNext (length ports > 0))
               ((emit GetPorts s)\<lparr>pairedPortsAvailable_val := (length ports > 0)\<rparr>)
         | Inl err \<Rightarrow>
             emit (PairedNext False)
               ((emit GetPorts s)\<lparr>pairedPortsAvailable_val := False\<rparr>)))"

definition disconnect :: "platform \<Rightarrow> serial_service \<Rightarrow> serial_service" where
  "disconnect env s =
     (let s1 = (case reader s of
                  None \<Rightarrow> s
                | Some r \<Rightarrow> emit (ReaderReleaseLock r) (emit (ReaderCancel r) s));
          s2 = s1\<lparr>reader := None\<rparr>;
          s3 = (case writer s2 of
                  None \<Rightarrow> s2
                | Some w \<Rightarrow> emit (WriterReleaseLock w) (emit (WriterClose w) s2));
          s4 = s3\<lparr>writer := None\<rparr>;
          s5 = (case port s4 of
                  None \<Rightarrow> s4
                | Some p \<Rightarrow> emit (PortClose p) s4);
          s6 = s5\<lparr>port := None\<rparr>;
          s7 = checkPairedPorts env s6
      in if connected_val s7
         then emit (ConnectedNext False) (s7\<lparr>connected_val := False\<rparr>)
         else s7)"





text \<open>
  \<^verbatim>\<open>send\<close>; the bytes written are the UTF-8 encoding of \<open>text\<close>, which the trace
  records as the text.
\<close>

definition send ::
  "platform \<Rightarrow> js_string \<Rightarrow> serial_service \<Rightarrow> (js_error + unit) \<times> serial_service" where
  "send env text s =
     (case writer s of
        None \<Rightarrow> (Inl NotConnected, s)
      | Some w \<Rightarrow>
          (case writer_write env (trace s) w text of
             None \<Rightarrow> (Inr (), emit (WriterWrite w text) s)
           | Some err \<Rightarrow> (Inl (SendFailed err), disconnect env (emit (WriterWrite w text) s))))"

text \<open>The events a call added to the trace.\<close>

definition events_since :: "serial_service \<Rightarrow> serial_service \<Rightarrow> event list" where
  "events_since s s' = drop (length (trace s)) (trace s')"

text \<open>The connectivity notifications among a list of events.\<close>

fun is_connectivity :: "event \<Rightarrow> bool" where
  "is_connectivity (ConnectedNext b) = True"
| "is_connectivity e = False"

text \<open>
  The service as its field initialisers leave it, before the constructor has called
  \<^verbatim>\<open>checkPairedPorts\<close>; \<open>constructed\<close> below is the service with that call made.
\<close>

definition initial_service :: serial_service where
  "initial_service =
     \<lparr>port = None, reader = None, writer = None, connected_val = False,
      baud_val = 115200, pairedPortsAvailable_val = False, trace = []\<rparr>"

text \<open>
  A platform for the examples: the API is present, port 7 is paired, every call
  succeeds, and an opened port has a readable stream iff \<open>r\<close> and a writable one iff
  \<open>w\<close>.
\<close>

definition example_platform :: "bool \<Rightarrow> bool \<Rightarrow> platform" where
  "example_platform r w =
     \<lparr>isSupported = True,
      getPorts = (\<lambda>tr. Inr [7]),
      port_open = (\<lambda>tr p b. None),
      port_readable = (\<lambda>tr p. r),
      port_writable = (\<lambda>tr p. w),
      getWriter = (\<lambda>tr p. None),
      getReader = (\<lambda>tr p. None),
      writer_write = (\<lambda>tr p d. None)\<rparr>"

text \<open>
  The component over the ring \<^verbatim>\<open>["c2","c1"]\<close>, at index \<open>i\<close>, with the snapshot \<open>tmp\<close>
  and the edit buffer \<open>txt\<close>.
\<close>

definition ring_state :: "int \<Rightarrow> string \<Rightarrow> string \<Rightarrow> js_string app_component" where
  "ring_state i tmp txt =
     \<lparr>commandHistory = [js ''c2'', js ''c1''], historyIndex = i,
      tempInputBeforeHistory = Some (js tmp), inputText = Some (js txt)\<rparr>"

section \<open>SerialService: tasks and their interleavings\<close>

text \<open>
  The methods of the service are \<^verbatim>\<open>async\<close>. A call runs until its first \<^verbatim>\<open>await\<close>;
  each later part of it runs once the awaited promise has settled, possibly after parts
  of other calls and of the read loop. A task is a call suspended at an \<^verbatim>\<open>await\<close>,
  what a task does from one \<^verbatim>\<open>await\<close> to the next is one step, and a schedule is the
  list of the steps in the order in which they run. The platform's answers are inputs
  of the schedule: a resumption carries the outcome of the promise the task awaited.
  Every order of resumptions is a schedule, so what holds for all schedules holds for
  the orders a JavaScript engine produces.

  The awaits of \<^verbatim>\<open>disconnect\<close>, in order: \<^verbatim>\<open>reader?.cancel()\<close>, \<^verbatim>\<open>writer?.close()\<close>,
  \<^verbatim>\<open>port.close()\<close> (only when a port is held), the \<^verbatim>\<open>getPorts()\<close> inside
  \<^verbatim>\<open>checkPairedPorts\<close> (only when the serial API is present), the \<^verbatim>\<open>await\<close> of
  \<^verbatim>\<open>checkPairedPorts()\<close> itself, and the caller's \<^verbatim>\<open>await\<close> of \<^verbatim>\<open>disconnect()\<close>.
\<close>

datatype disc_pc =
    AwaitCancel
  | AwaitWriterClose
  | AwaitPortClose
  | AwaitGetPorts
  | AwaitPaired
  | AwaitReturn

text \<open>
  Who awaits a \<^verbatim>\<open>disconnect\<close>: a caller outside the service, the \<^verbatim>\<open>finally\<close> block of
  the read loop, \<^verbatim>\<open>openPort\<close> at its start (with the port and the baud rate it will
  open), \<^verbatim>\<open>openPort\<close> before it throws the not-streamable error, the \<^verbatim>\<open>catch\<close> block of
  \<^verbatim>\<open>openPort\<close> (with the error caught), and the \<^verbatim>\<open>catch\<close> block of \<^verbatim>\<open>send\<close>.
\<close>

datatype caller =
    TopLevel
  | FromReadLoop
  | FromOpenStart port_id int
  | FromOpenNotStreamable
  | FromOpenCatch js_error
  | FromSendCatch js_error

text \<open>
  A task is inside \<^verbatim>\<open>disconnect\<close>; or is a \<^verbatim>\<open>checkPairedPorts\<close> called on its own and
  awaiting \<^verbatim>\<open>getPorts\<close>; or is the read loop awaiting the \<^verbatim>\<open>read\<close> it issued on a
  reader; or is \<^verbatim>\<open>openPort\<close> awaiting \<^verbatim>\<open>port.open\<close>; or is \<^verbatim>\<open>send\<close> awaiting
  \<^verbatim>\<open>write\<close>; or has returned (\<open>Inr\<close>) or thrown (\<open>Inl\<close>).
\<close>

datatype task =
    Disconnecting disc_pc caller
  | PairedCheck
  | ReadLoop port_id
  | Opening port_id int
  | Sending
  | Done "js_error + unit"

text \<open>
  A \<^verbatim>\<open>read\<close> gives a chunk (here the text the streaming decoder makes of it, empty
  when the chunk is empty or decodes to nothing), the end of the stream, or an error.
\<close>

datatype read_result = Value js_string | EndOfStream | ReadError js_error

text \<open>
  The outcome of an awaited promise, together with the platform's answers that the
  resumed step reads. \<open>Ports\<close> is the list \<^verbatim>\<open>getPorts\<close> resolves with.
  \<open>Opened r w gw gr\<close> is a \<^verbatim>\<open>port.open\<close> that resolves: the port then has a readable
  stream iff \<open>r\<close> and a writable one iff \<open>w\<close>, and \<^verbatim>\<open>getWriter\<close> and \<^verbatim>\<open>getReader\<close> throw
  \<open>gw\<close> and \<open>gr\<close> if these are not \<open>None\<close>. \<open>Read res tail\<close> is the result of a
  \<^verbatim>\<open>read\<close>, with the text the decoder's final flush gives should the loop end.
\<close>

datatype outcome =
    Resolved
  | Rejected js_error
  | Ports "port_id list"
  | Opened bool bool "js_error option" "js_error option"
  | Read read_result js_string

text \<open>
  A step of a schedule: a call of a method from outside the service, or the resumption
  of the task at index \<open>i\<close> with the outcome of what it awaited.
\<close>

datatype action =
    Call_disconnect
  | Call_handleDisconnect
  | Call_openPort port_id int
  | Call_send js_string
  | Call_checkPairedPorts
  | Resume nat outcome

text \<open>The service and its tasks, in the order in which they were started.\<close>

record config =
  svc :: serial_service
  tasks :: "task list"

text \<open>
  The awaits of \<^verbatim>\<open>disconnect\<close> that stand in \<^verbatim>\<open>try { ... } catch {}\<close> go on whether
  the promise resolves or rejects.
\<close>

fun swallowed :: "outcome \<Rightarrow> bool" where
  "swallowed Resolved = True"
| "swallowed (Rejected err) = True"
| "swallowed out = False"

text \<open>
  The statements of \<^verbatim>\<open>disconnect\<close>, each on the fields as they are when it runs:
  \<^verbatim>\<open>this.reader?.cancel()\<close>; \<^verbatim>\<open>this.reader?.releaseLock(); this.reader = null\<close>;
  \<^verbatim>\<open>this.writer?.close()\<close>; \<^verbatim>\<open>this.writer?.releaseLock(); this.writer = null\<close>; and
  \<^verbatim>\<open>if (this.connected$.value) this.connected$.next(false)\<close>.
\<close>

definition cancel_reader :: "serial_service \<Rightarrow> serial_service" where
  "cancel_reader s = (case reader s of None \<Rightarrow> s | Some r \<Rightarrow> emit (ReaderCancel r) s)"

definition release_reader :: "serial_service \<Rightarrow> serial_service" where
  "release_reader s =
     (case reader s of None \<Rightarrow> s | Some r \<Rightarrow> emit (ReaderReleaseLock r) s)\<lparr>reader := None\<rparr>"

definition close_writer :: "serial_service \<Rightarrow> serial_service" where
  "close_writer s = (case writer s of None \<Rightarrow> s | Some w \<Rightarrow> emit (WriterClose w) s)"

definition release_writer :: "serial_service \<Rightarrow> serial_service" where
  "release_writer s =
     (case writer s of None \<Rightarrow> s | Some w \<Rightarrow> emit (WriterReleaseLock w) s)\<lparr>writer := None\<rparr>"

definition publish_disconnected :: "serial_service \<Rightarrow> serial_service" where
  "publish_disconnected s =
     (if connected_val s then emit (ConnectedNext False) (s\<lparr>connected_val := False\<rparr>) else s)"

text \<open>\<^verbatim>\<open>if (text) this.log$.next(text)\<close>, of the read loop.\<close>

definition log_text :: "js_string \<Rightarrow> serial_service \<Rightarrow> serial_service" where
  "log_text text s = (if text \<noteq> [] then emit (LogNext text) s else s)"

text \<open>
  A step gives the new service, what the task has become, and the tasks it started.
  \<open>start_disconnect\<close> is \<^verbatim>\<open>disconnect\<close> up to its first \<^verbatim>\<open>await\<close>, which is reached
  also when no reader is held.
\<close>

definition start_disconnect :: "caller \<Rightarrow> serial_service \<Rightarrow> serial_service \<times> task \<times> task list" where
  "start_disconnect k s = (cancel_reader s, Disconnecting AwaitCancel k, [])"

text \<open>
  \<^verbatim>\<open>await this.checkPairedPorts()\<close> inside \<^verbatim>\<open>disconnect\<close>: without the serial API
  \<^verbatim>\<open>checkPairedPorts\<close> returns at once, else it calls \<^verbatim>\<open>getPorts\<close> and awaits it.
  \<open>api\<close> is \<^verbatim>\<open>isSupported\<close>.
\<close>

definition enter_checkPairedPorts ::
  "bool \<Rightarrow> caller \<Rightarrow> serial_service \<Rightarrow> serial_service \<times> task \<times> task list" where
  "enter_checkPairedPorts api k s =
     (if \<not> api then (s, Disconnecting AwaitPaired k, [])
      else (emit GetPorts s, Disconnecting AwaitGetPorts k, []))"

text \<open>
  What \<^verbatim>\<open>checkPairedPorts\<close> publishes when \<^verbatim>\<open>getPorts\<close> has settled: whether the list is
  non-empty, and false when it rejected.
\<close>

fun paired_result :: "outcome \<Rightarrow> bool option" where
  "paired_result (Ports ports) = Some (length ports > 0)"
| "paired_result (Rejected err) = Some False"
| "paired_result out = None"

definition set_paired :: "bool \<Rightarrow> serial_service \<Rightarrow> serial_service" where
  "set_paired b s = emit (PairedNext b) (s\<lparr>pairedPortsAvailable_val := b\<rparr>)"

text \<open>
  What the caller does once its \<^verbatim>\<open>await this.disconnect()\<close> is over: a caller outside
  and the read loop are done; \<^verbatim>\<open>openPort\<close> at its start calls \<^verbatim>\<open>port.open\<close> and awaits
  it; \<^verbatim>\<open>openPort\<close> throws the not-streamable error, which its own \<^verbatim>\<open>catch\<close> block
  catches and so calls \<^verbatim>\<open>disconnect\<close> again; the \<^verbatim>\<open>catch\<close> blocks throw their wrapped
  errors.
\<close>

definition after_disconnect :: "caller \<Rightarrow> serial_service \<Rightarrow> serial_service \<times> task \<times> task list" where
  "after_disconnect k s =
     (case k of
        TopLevel \<Rightarrow> (s, Done (Inr ()), [])
      | FromReadLoop \<Rightarrow> (s, Done (Inr ()), [])
      | FromOpenStart p b \<Rightarrow> (emit (PortOpen p b) s, Opening p b, [])
      | FromOpenNotStreamable \<Rightarrow> start_disconnect (FromOpenCatch PortNotStreamable) s
      | FromOpenCatch err \<Rightarrow> (s, Done (Inl (OpenFailed err)), [])
      | FromSendCatch err \<Rightarrow> (s, Done (Inl (SendFailed err)), []))"

text \<open>
  \<^verbatim>\<open>disconnect\<close> from one \<^verbatim>\<open>await\<close> to the next; \<open>None\<close> when the outcome is not one
  the awaited promise can have.
\<close>

definition resume_disconnect ::
  "bool \<Rightarrow> disc_pc \<Rightarrow> caller \<Rightarrow> outcome \<Rightarrow> serial_service
     \<Rightarrow> (serial_service \<times> task \<times> task list) option" where
  "resume_disconnect api pc k out s =
     (case pc of
        AwaitCancel \<Rightarrow>
          if swallowed out
          then Some (close_writer (release_reader s), Disconnecting AwaitWriterClose k, [])
          else None
      | AwaitWriterClose \<Rightarrow>
          if swallowed out then
            (case port (release_writer s) of
               Some p \<Rightarrow>
                 Some (emit (PortClose p) (release_writer s), Disconnecting AwaitPortClose k, [])
             | None \<Rightarrow>
                 Some (enter_checkPairedPorts api k ((release_writer s)\<lparr>port := None\<rparr>)))
          else None
      | AwaitPortClose \<Rightarrow>
          if swallowed out then Some (enter_checkPairedPorts api k (s\<lparr>port := None\<rparr>))
          else None
      | AwaitGetPorts \<Rightarrow>
          (case paired_result out of
             None \<Rightarrow> None
           | Some b \<Rightarrow> Some (set_paired b s, Disconnecting AwaitPaired k, []))
      | AwaitPaired \<Rightarrow>
          if out = Resolved
          then Some (publish_disconnected s, Disconnecting AwaitReturn k, [])
          else None
      | AwaitReturn \<Rightarrow>
          if out = Resolved then Some (after_disconnect k s) else None)"

text \<open>
  The read loop. Its \<^verbatim>\<open>catch\<close> block logs \<^verbatim>\<open>[read error] \<close> and \<^verbatim>\<open>String(err)\<close>
  between two line feeds; its \<^verbatim>\<open>finally\<close> block logs the decoder's last text, releases and clears whatever reader
  the service holds by then, and calls \<^verbatim>\<open>disconnect\<close>. After a chunk the loop calls
  \<^verbatim>\<open>this.reader.read()\<close> again, which throws a \<^verbatim>\<open>TypeError\<close> when a \<^verbatim>\<open>disconnect\<close> has
  cleared the reader in the meantime.
\<close>

definition read_error_text :: "js_error \<Rightarrow> js_string" where
  "read_error_text err = [0x0A] @ js ''[read error] '' @ String_err err @ [0x0A]"

definition null_reader_error :: js_error where
  "null_reader_error = Thrown (js ''TypeError: Cannot read properties of null'')"

definition readLoop_finally :: "js_string \<Rightarrow> serial_service \<Rightarrow> serial_service \<times> task \<times> task list" where
  "readLoop_finally tail s = start_disconnect FromReadLoop (release_reader (log_text tail s))"

definition resume_readLoop ::
  "outcome \<Rightarrow> serial_service \<Rightarrow> (serial_service \<times> task \<times> task list) option" where
  "resume_readLoop out s =
     (case out of
        Read res tail \<Rightarrow>
          (case res of
             Value text \<Rightarrow>
               (case reader s of
                  Some r \<Rightarrow> Some (emit (ReaderRead r) (log_text text s), ReadLoop r, [])
                | None \<Rightarrow>
                    Some (readLoop_finally tail
                            (emit (LogNext (read_error_text null_reader_error))
                               (log_text text s))))
           | EndOfStream \<Rightarrow> Some (readLoop_finally tail s)
           | ReadError err \<Rightarrow>
               Some (readLoop_finally tail (emit (LogNext (read_error_text err)) s)))
      | _ \<Rightarrow> None)"

text \<open>
  \<^verbatim>\<open>openPort\<close> once \<^verbatim>\<open>port.open\<close> has settled, up to its return, which starts the read
  loop (the loop runs up to its first \<^verbatim>\<open>read\<close>), or up to the \<^verbatim>\<open>disconnect\<close> of its
  failure paths.
\<close>

definition resume_open ::
  "port_id \<Rightarrow> int \<Rightarrow> outcome \<Rightarrow> serial_service \<Rightarrow> (serial_service \<times> task \<times> task list) option" where
  "resume_open p b out s =
     (case out of
        Rejected err \<Rightarrow> Some (start_disconnect (FromOpenCatch err) s)
      | Opened r w gw gr \<Rightarrow>
          (let s1 = emit (BaudNext b) (s\<lparr>port := Some p, baud_val := b\<rparr>)
           in if \<not> r \<or> \<not> w then Some (start_disconnect FromOpenNotStreamable s1)
              else
                (case gw of
                   Some err \<Rightarrow> Some (start_disconnect (FromOpenCatch err) (emit (GetWriter p) s1))
                 | None \<Rightarrow>
                     (let s2 = (emit (GetWriter p) s1)\<lparr>writer := Some p\<rparr>
                      in case gr of
                           Some err \<Rightarrow>
                             Some (start_disconnect (FromOpenCatch err) (emit (GetReader p) s2))
                         | None \<Rightarrow>
                             (let s3 = (emit (GetReader p) s2)\<lparr>reader := Some p\<rparr>;
                                  s4 = emit (ConnectedNext True) (s3\<lparr>connected_val := True\<rparr>)
                              in Some (emit (ReaderRead p) s4, Done (Inr ()), [ReadLoop p])))))
      | _ \<Rightarrow> None)"

text \<open>\<^verbatim>\<open>send\<close> once \<^verbatim>\<open>write\<close> has settled.\<close>

definition resume_send ::
  "outcome \<Rightarrow> serial_service \<Rightarrow> (serial_service \<times> task \<times> task list) option" where
  "resume_send out s =
     (case out of
        Resolved \<Rightarrow> Some (s, Done (Inr ()), [])
      | Rejected err \<Rightarrow> Some (start_disconnect (FromSendCatch err) s)
      | _ \<Rightarrow> None)"

text \<open>A \<^verbatim>\<open>checkPairedPorts\<close> called on its own, once \<^verbatim>\<open>getPorts\<close> has settled.\<close>

definition resume_pairedCheck ::
  "outcome \<Rightarrow> serial_service \<Rightarrow> (serial_service \<times> task \<times> task list) option" where
  "resume_pairedCheck out s =
     (case paired_result out of
        None \<Rightarrow> None
      | Some b \<Rightarrow> Some (set_paired b s, Done (Inr ()), []))"

fun resume ::
  "bool \<Rightarrow> task \<Rightarrow> outcome \<Rightarrow> serial_service \<Rightarrow> (serial_service \<times> task \<times> task list) option" where
  "resume api (Disconnecting pc k) out s = resume_disconnect api pc k out s"
| "resume api PairedCheck out s = resume_pairedCheck out s"
| "resume api (ReadLoop r) out s = resume_readLoop out s"
| "resume api (Opening p b) out s = resume_open p b out s"
| "resume api Sending out s = resume_send out s"
| "resume api (Done r) out s = None"

text \<open>
  A call from outside, up to its first \<^verbatim>\<open>await\<close>. \<^verbatim>\<open>handleDisconnect\<close> logs
  \<^verbatim>\<open>[device disconnected]\<close> between two line feeds and calls \<^verbatim>\<open>disconnect\<close>; \<^verbatim>\<open>openPort\<close> begins with
  \<^verbatim>\<open>await this.disconnect()\<close>; \<^verbatim>\<open>send\<close> throws without a writer and else calls
  \<^verbatim>\<open>write\<close>.
\<close>

definition "call" :: "bool \<Rightarrow> action \<Rightarrow> serial_service \<Rightarrow> (serial_service \<times> task \<times> task list) option" where
  "call api act s =
     (case act of
        Call_disconnect \<Rightarrow> Some (start_disconnect TopLevel s)
      | Call_handleDisconnect \<Rightarrow>
          Some (start_disconnect TopLevel
                  (emit (LogNext ([0x0A] @ js ''[device disconnected]'' @ [0x0A])) s))
      | Call_openPort p b \<Rightarrow> Some (start_disconnect (FromOpenStart p b) s)
      | Call_send text \<Rightarrow>
          (case writer s of
             None \<Rightarrow> Some (s, Done (Inl NotConnected), [])
           | Some w \<Rightarrow> Some (emit (WriterWrite w text) s, Sending, []))
      | Call_checkPairedPorts \<Rightarrow>
          (if \<not> api then Some (s, Done (Inr ()), [])
           else Some (emit GetPorts s, PairedCheck, []))
      | Resume i out \<Rightarrow> None)"

text \<open>
  One step of a schedule: a call adds its task at the end of the list, a resumption
  replaces the task at its index and adds the tasks it started. \<open>None\<close> when the step
  cannot happen: no task at the index, a task that is done, or an outcome the awaited
  promise cannot have.
\<close>

definition step :: "bool \<Rightarrow> action \<Rightarrow> config \<Rightarrow> config option" where
  "step api act c =
     (case act of
        Resume i out \<Rightarrow>
          (if i < length (tasks c) then
             (case resume api (tasks c ! i) out (svc c) of
                None \<Rightarrow> None
              | Some (s, t, ts) \<Rightarrow> Some \<lparr>svc = s, tasks = (tasks c)[i := t] @ ts\<rparr>)
           else None)
      | _ \<Rightarrow>
          (case call api act (svc c) of
             None \<Rightarrow> None
           | Some (s, t, ts) \<Rightarrow> Some \<lparr>svc = s, tasks = tasks c @ t # ts\<rparr>))"

fun run :: "bool \<Rightarrow> action list \<Rightarrow> config \<Rightarrow> config option" where
  "run api [] c = Some c"
| "run api (act # acts) c =
     (case step api act c of None \<Rightarrow> None | Some c' \<Rightarrow> run api acts c')"

text \<open>
  The service as its constructor leaves it: with the serial API the constructor calls
  \<^verbatim>\<open>checkPairedPorts\<close>, which is left suspended at \<^verbatim>\<open>getPorts\<close>.
\<close>

definition constructed :: "bool \<Rightarrow> config" where
  "constructed api =
     (if api then \<lparr>svc = emit GetPorts initial_service, tasks = [PairedCheck]\<rparr>
      else \<lparr>svc = initial_service, tasks = []\<rparr>)"



subsection \<open>Example runs\<close>


definition session_7 :: config where
  "session_7 =
     \<lparr>svc = \<lparr>port = Some 7, reader = Some 7, writer = Some 7, connected_val = True,
             baud_val = 9600, pairedPortsAvailable_val = True,
             trace = [GetPorts, PairedNext True, GetPorts, PairedNext True, PortOpen 7 9600,
                      BaudNext 9600, GetWriter 7, GetReader 7, ConnectedNext True,
                      ReaderRead 7]\<rparr>,
      tasks = [Done (Inr ()), Done (Inr ()), ReadLoop 7]\<rparr>"







text \<open>
  \<^verbatim>\<open>disconnect\<close> is called on \<open>session_7\<close> (task 3); the read loop (task 2) ends and
  its own \<^verbatim>\<open>disconnect\<close> alternates with the first one, step by step, until both are
  over (\<open>closed_7\<close>).
\<close>

definition disconnect_race :: "action list" where
  "disconnect_race =
     [Call_disconnect, Resume 2 (Read EndOfStream []), Resume 3 Resolved, Resume 2 Resolved,
      Resume 3 Resolved, Resume 2 Resolved, Resume 3 Resolved, Resume 2 Resolved,
      Resume 3 (Ports [7]), Resume 2 (Ports [7]), Resume 3 Resolved, Resume 2 Resolved,
      Resume 3 Resolved, Resume 2 Resolved]"

definition closed_7 :: config where
  "closed_7 =
     \<lparr>svc = \<lparr>port = None, reader = None, writer = None, connected_val = False,
             baud_val = 9600, pairedPortsAvailable_val = True,
             trace = trace (svc session_7) @
                     [ReaderCancel 7, ReaderReleaseLock 7, WriterClose 7, WriterClose 7,
                      WriterReleaseLock 7, PortClose 7, PortClose 7, GetPorts, GetPorts,
                      PairedNext True, PairedNext True, ConnectedNext False]\<rparr>,
      tasks = [Done (Inr ()), Done (Inr ()), Done (Inr ()), Done (Inr ())]\<rparr>"

section \<open>Auxiliary definitions of the proofs\<close>

definition history_ok :: "int \<Rightarrow> json list \<Rightarrow> bool" where
  "history_ok m xs = (int (length xs) \<le> m \<and> distinct xs \<and> list_all trimmed_entry xs)"


text \<open>The calls with which \<open>disconnect\<close> releases what the service holds.\<close>

definition teardown_events :: "serial_service \<Rightarrow> event list" where
  "teardown_events s =
     (case reader s of None \<Rightarrow> [] | Some r \<Rightarrow> [ReaderCancel r, ReaderReleaseLock r]) @
     (case writer s of None \<Rightarrow> [] | Some w \<Rightarrow> [WriterClose w, WriterReleaseLock w]) @
     (case port s of None \<Rightarrow> [] | Some p \<Rightarrow> [PortClose p])"

text \<open>
  The connectivity values published in a list of events, read from a current value
  \<open>v\<close>: \<open>publish_ok\<close> says that false is never published while the current value is
  false, and \<open>publish_val\<close> is the current value after the events.
\<close>

fun publish_ok :: "bool \<Rightarrow> event list \<Rightarrow> bool" where
  "publish_ok v [] = True"
| "publish_ok v (ConnectedNext b # es) = ((b \<or> v) \<and> publish_ok b es)"
| "publish_ok v (e # es) = publish_ok v es"

fun publish_val :: "bool \<Rightarrow> event list \<Rightarrow> bool" where
  "publish_val v [] = v"
| "publish_val v (ConnectedNext b # es) = publish_val b es"
| "publish_val v (e # es) = publish_val v es"

text \<open>
  From \<open>s\<close> to \<open>s'\<close> the trace has only grown, by events that publish connectivity
  properly and leave \<open>connected_val\<close> the value last published.
\<close>

definition tracks :: "serial_service \<Rightarrow> serial_service \<Rightarrow> bool" where
  "tracks s s' =
     (\<exists>evs. trace s' = trace s @ evs \<and>
        publish_ok (connected_val s) evs \<and>
        connected_val s' = publish_val (connected_val s) evs)"

text \<open>The events after the first \<open>n\<close> of the trace.\<close>

definition seen :: "nat \<Rightarrow> serial_service \<Rightarrow> event set" where
  "seen n s = set (drop n (trace s))"















text \<open>
  The schedule in which a \<^verbatim>\<open>disconnect\<close> called on \<open>s\<close> runs with no other step in
  between, as task \<open>n\<close> and on the platform \<open>env\<close>.
\<close>

definition getPorts_outcome :: "platform \<Rightarrow> event list \<Rightarrow> outcome" where
  "getPorts_outcome env tr =
     (case getPorts env tr of Inr ports \<Rightarrow> Ports ports | Inl err \<Rightarrow> Rejected err)"

definition uninterrupted_disconnect :: "platform \<Rightarrow> serial_service \<Rightarrow> nat \<Rightarrow> action list" where
  "uninterrupted_disconnect env s n =
     [Call_disconnect, Resume n Resolved, Resume n Resolved] @
     (if port s = None then [] else [Resume n Resolved]) @
     (if isSupported env
      then [Resume n (getPorts_outcome env (trace s @ teardown_events s))] else []) @
     [Resume n Resolved, Resume n Resolved]"

section \<open>Trimming\<close>

lemma dropWhile_fix: "xs = [] \<or> \<not> P (hd xs) \<Longrightarrow> dropWhile P xs = xs"
  by (cases xs) auto

lemma dropWhile_head: "dropWhile P xs = [] \<or> \<not> P (hd (dropWhile P xs))"
  by (induction xs) auto

lemma strip_end_head:
  "rev (dropWhile P (rev xs)) \<noteq> [] \<Longrightarrow> hd (rev (dropWhile P (rev xs))) = hd xs"
proof (induction xs rule: rev_induct)
  case Nil
  then show ?case by simp
next
  case (snoc x xs)
  then show ?case by (cases xs) (auto split: if_splits)
qed

lemma trim_idem: "trim (trim s) = trim s"
proof -
  define u where "u = dropWhile isWhiteSpace s"
  define t where "t = rev (dropWhile isWhiteSpace (rev u))"
  have u: "u = [] \<or> \<not> isWhiteSpace (hd u)"
    unfolding u_def by (rule dropWhile_head)
  have "t = [] \<or> \<not> isWhiteSpace (hd t)"
  proof (cases "t = []")
    case True
    then show ?thesis by simp
  next
    case False
    then have "hd t = hd u"
      unfolding t_def by (rule strip_end_head)
    moreover from False have "u \<noteq> []"
      unfolding t_def by auto
    ultimately show ?thesis using u by simp
  qed
  then have "dropWhile isWhiteSpace t = t"
    by (rule dropWhile_fix)
  then show ?thesis
    by (simp add: trim_def t_def u_def)
qed

section \<open>The history ring\<close>

lemma load_save: "load (save st items now) = items"
  by (simp add: load_def load_try_def save_def setItem_def getItem_def JSON_stringify_def js_def)

lemma pushFront_max_ge1: "1 \<le> pushFront_max opts"
  by (simp add: pushFront_max_def)

lemma length_truncate_to: "0 \<le> m \<Longrightarrow> int (length (truncate_to m xs)) \<le> m"
  by (simp add: truncate_to_def)

lemma distinct_truncate_to: "distinct xs \<Longrightarrow> distinct (truncate_to m xs)"
  by (simp add: truncate_to_def)

lemma list_all_truncate_to: "list_all P xs \<Longrightarrow> list_all P (truncate_to m xs)"
  by (auto simp: truncate_to_def list_all_iff dest: in_set_takeD)

lemma history_ok_insert:
  assumes "distinct xs" and "list_all trimmed_entry xs" and "trim c \<noteq> []" and "1 \<le> m"
  shows "history_ok m (truncate_to m (JStr (trim c) # filter (\<lambda>i. i \<noteq> JStr (trim c)) xs))"
proof -
  let ?ys = "JStr (trim c) # filter (\<lambda>i. i \<noteq> JStr (trim c)) xs"
  have "distinct ?ys" using assms(1) by simp
  moreover have "list_all trimmed_entry ?ys"
    using assms(2,3) by (simp add: trim_idem list_all_iff)
  ultimately show ?thesis
    using assms(4)
    by (simp add: history_ok_def length_truncate_to distinct_truncate_to list_all_truncate_to)
qed

lemma pushFront_returns_stored:
  "load (snd (pushFront st now cmd opts)) = fst (pushFront st now cmd opts)"
  by (simp add: pushFront_def Let_def load_save)

lemma pushFront_keeps_ok:
  assumes "history_ok (pushFront_max opts) (load st)"
  shows "history_ok (pushFront_max opts) (fst (pushFront st now cmd opts))"
proof (cases "trim cmd = [] \<or> (pushFront_dedupeHead opts \<and> head_is (load st) (trim cmd))")
  case True
  then show ?thesis using assms by (auto simp: pushFront_def Let_def)
next
  case False
  then have "fst (pushFront st now cmd opts) =
      truncate_to (pushFront_max opts)
        (JStr (trim cmd) # filter (\<lambda>i. i \<noteq> JStr (trim cmd)) (load st))"
    by (auto simp: pushFront_def Let_def)
  moreover have "trim cmd \<noteq> []" using False by simp
  ultimately show ?thesis
    using assms history_ok_insert [of "load st" cmd "pushFront_max opts"]
      pushFront_max_ge1 [of opts]
    by (simp add: history_ok_def)
qed

lemma pushFront_calls_ok:
  assumes "history_ok m (load st)"
    and "\<forall>(cmd, opts, now) \<in> set calls. pushFront_max opts = m"
  shows "\<forall>(r, st') \<in> set (pushFront_calls st calls). history_ok m r \<and> load st' = r"
  using assms
proof (induction calls arbitrary: st)
  case Nil
  then show ?case by simp
next
  case (Cons c calls)
  obtain cmd opts now where c: "c = (cmd, opts, now)"
    by (cases c) auto
  from Cons.prems(2) c have m: "pushFront_max opts = m" by simp
  let ?r = "pushFront st now cmd opts"
  have ok: "history_ok m (fst ?r)"
    using pushFront_keeps_ok [of opts st now cmd] Cons.prems(1) m by simp
  have stored: "load (snd ?r) = fst ?r"
    by (rule pushFront_returns_stored)
  have rest: "\<forall>(r, st') \<in> set (pushFront_calls (snd ?r) calls). history_ok m r \<and> load st' = r"
    using Cons.IH [of "snd ?r"] ok stored Cons.prems(2) by simp
  show ?case
    using ok stored rest c by (simp add: Let_def case_prod_beta)
qed

text \<open>
  Claim C1, as amended. Take any sequence of \<open>pushFront\<close> calls that starts from an
  empty history and in which every call has the same \<open>max\<close>, the constant the code
  computes as \<^verbatim>\<open>Math.max(1, opts?.max ?? 50)\<close>. After each call the sequence returned
  is the one persisted, its length is at most that \<open>max\<close>, no two of its entries are
  equal, and every entry is a non-empty trimmed string. The bound is the clamped
  value, not the option as passed: it is 1 for an option of 0 or less.
\<close>

theorem pushFront_calls_bounded_distinct:
  assumes "load st0 = []"
    and "\<forall>(cmd, opts, now) \<in> set calls. pushFront_max opts = m"
  shows "\<forall>(r, st) \<in> set (pushFront_calls st0 calls).
           int (length r) \<le> m \<and> distinct r \<and> list_all trimmed_entry r \<and> load st = r"
proof -
  have "1 \<le> m \<or> calls = []"
  proof (cases calls)
    case Nil
    then show ?thesis by simp
  next
    case (Cons c cs)
    obtain cmd opts now where "c = (cmd, opts, now)" by (cases c) auto
    with Cons assms(2) have "pushFront_max opts = m" by simp
    then show ?thesis using pushFront_max_ge1 [of opts] by simp
  qed
  then show ?thesis
  proof
    assume "1 \<le> m"
    then have "history_ok m (load st0)"
      using assms(1) by (simp add: history_ok_def)
    from pushFront_calls_ok [OF this assms(2)] show ?thesis
      by (simp add: history_ok_def case_prod_beta)
  next
    assume "calls = []"
    then show ?thesis by simp
  qed
qed

text \<open>
  The theorem at two calls on absent storage, the first with no options and the second
  with \<^verbatim>\<open>{dedupeHead: false, max: 50}\<close>: both hypotheses hold, and the first call's
  result is within the bound, duplicate-free and persisted.
\<close>

theorem pushFront_calls_bounded_distinct_witness:
  "load None = [] \<and>
   pushFront_max None = 50 \<and>
   pushFront_max (Some \<lparr>dedupeHead = Some False, max_opt = Some 50\<rparr>) = 50 \<and>
   int (length (fst (pushFront None 1 (js ''x'') None))) \<le> 50 \<and>
   distinct (fst (pushFront None 1 (js ''x'') None)) \<and>
   load (snd (pushFront None 1 (js ''x'') None)) = fst (pushFront None 1 (js ''x'') None)"
proof -
  let ?calls =
    "[(js ''x'', None, 1),
      (js '' y '', Some \<lparr>dedupeHead = Some False, max_opt = Some 50\<rparr>, 2)]"
  have h1: "load None = []"
    by (simp add: load_def load_try_def getItem_def)
  have m1: "pushFront_max None = 50"
    by (simp add: pushFront_max_def)
  have m2: "pushFront_max (Some \<lparr>dedupeHead = Some False, max_opt = Some 50\<rparr>) = 50"
    by (simp add: pushFront_max_def)
  have h2: "\<forall>(cmd, opts, now) \<in> set ?calls. pushFront_max opts = 50"
    using m1 m2 by simp
  have "pushFront None 1 (js ''x'') None \<in> set (pushFront_calls None ?calls)"
    by (simp add: Let_def)
  with pushFront_calls_bounded_distinct [OF h1 h2] show ?thesis
    using h1 m1 m2 by (auto simp: case_prod_beta)
qed

text \<open>
  Claim C1 as stated fails for a \<open>max\<close> option of 0: on absent storage
  \<^verbatim>\<open>pushFront("a", {max: 0})\<close> returns \<^verbatim>\<open>["a"]\<close>, whose length 1 exceeds the
  configured 0.
\<close>

theorem pushFront_max_zero_counterexample:
  "load None = [] \<and>
   fst (pushFront None 0 (js ''a'') (Some \<lparr>dedupeHead = None, max_opt = Some 0\<rparr>))
     = [JStr (js ''a'')] \<and>
   \<not> int (length (fst (pushFront None 0 (js ''a'')
                          (Some \<lparr>dedupeHead = None, max_opt = Some 0\<rparr>)))) \<le> 0"
  by (simp add: pushFront_def load_def load_try_def getItem_def trim_def js_def isWhiteSpace_def
      white_space_def pushFront_dedupeHead_def pushFront_max_def truncate_to_def Let_def)

text \<open>
  Claim C6. On absent storage, \<^verbatim>\<open>pushFront("b")\<close>, \<^verbatim>\<open>pushFront("a")\<close>,
  \<^verbatim>\<open>pushFront("b")\<close> return \<^verbatim>\<open>["b"]\<close>, \<^verbatim>\<open>["a","b"]\<close> and \<^verbatim>\<open>["b","a"]\<close>: the third
  call removes the stale \<^verbatim>\<open>"b"\<close> before it inserts at the front. The clock values are
  arbitrary.
\<close>

theorem pushFront_b_a_b:
  "map fst (pushFront_calls None
              [(js ''b'', None, t1), (js ''a'', None, t2), (js ''b'', None, t3)]) =
     [[JStr (js ''b'')],
      [JStr (js ''a''), JStr (js ''b'')],
      [JStr (js ''b''), JStr (js ''a'')]]"
  by (simp add: pushFront_def load_def load_try_def getItem_def setItem_def save_def
      JSON_stringify_def trim_def js_def isWhiteSpace_def white_space_def
      pushFront_dedupeHead_def pushFront_max_def truncate_to_def Let_def)

text \<open>
  Claim C7. For every sequence \<open>x\<close> of strings, \<open>save\<close> of \<open>x\<close> followed by \<open>load\<close>
  returns \<open>x\<close>, in the same order and with the same contents, whatever the storage held
  before and whatever the clock. This holds for every sequence of strings, so for the
  non-empty trimmed ones within the maximum.
\<close>

theorem save_load_roundtrip: "load (save st (map JStr x) now) = map JStr x"
  by (simp add: load_def load_try_def save_def setItem_def getItem_def JSON_stringify_def js_def)

text \<open>
  Claim C8. \<open>load\<close> returns the empty sequence when the key is absent, when the stored
  text is empty, when it is not JSON, and when it is JSON whose value has no \<^verbatim>\<open>items\<close>
  member that is an array (this covers the values that are not objects). It never
  throws: whenever the body of its \<^verbatim>\<open>try\<close> raises, the result is the empty sequence.
\<close>

theorem load_never_throws:
  "load None = [] \<and>
   load (Some EmptyText) = [] \<and>
   load (Some NotJSON) = [] \<and>
   ((\<forall>items. get_items v \<noteq> Some (JArr items)) \<longrightarrow> load (Some (JSONText v)) = []) \<and>
   (load_try st = Inl e \<longrightarrow> load st = [])"
  by (auto simp: load_def load_try_def getItem_def split: option.splits json.splits)

text \<open>
  The theorem at the JSON text \<^verbatim>\<open>{"items":"x"}\<close>, whose \<^verbatim>\<open>items\<close> is not an array, and
  at a text that is not JSON, where the body raises.
\<close>

theorem load_never_throws_witness:
  "(\<forall>items. get_items (JObj [(js ''items'', JStr (js ''x''))]) \<noteq> Some (JArr items)) \<and>
   load (Some (JSONText (JObj [(js ''items'', JStr (js ''x''))]))) = [] \<and>
   load_try (Some NotJSON) = Inl SyntaxError \<and>
   load (Some NotJSON) = []"
proof -
  have h1: "\<forall>items. get_items (JObj [(js ''items'', JStr (js ''x''))]) \<noteq> Some (JArr items)"
    by simp
  have h2: "load_try (Some NotJSON) = Inl SyntaxError"
    by (simp add: load_try_def getItem_def)
  from load_never_throws [of "JObj [(js ''items'', JStr (js ''x''))]" "Some NotJSON" SyntaxError]
    h1 h2
  show ?thesis by blast
qed

text \<open>
  Claim C10, as amended. For every command whose trimmed form is non-empty and every
  \<open>max\<close> option \<open>m \<le> 0\<close>, the sequence \<open>pushFront\<close> returns has the trimmed command at
  its head, so it is never empty. Unless the head check returns early (\<open>dedupeHead\<close> is
  on and the command is already the head of the stored history), the call persists and
  returns the sequence of exactly that one command; when the head check returns early,
  the stored history is returned as it is and nothing is written.
\<close>

theorem pushFront_max_clamp:
  assumes "trim cmd \<noteq> []" and "max_opt opt = Some m" and "m \<le> 0"
  shows "head_is (fst (pushFront st now cmd (Some opt))) (trim cmd) \<and>
         fst (pushFront st now cmd (Some opt)) \<noteq> [] \<and>
         (if pushFront_dedupeHead (Some opt) \<and> head_is (load st) (trim cmd)
          then pushFront st now cmd (Some opt) = (load st, st)
          else pushFront st now cmd (Some opt) =
                 ([JStr (trim cmd)], save st [JStr (trim cmd)] now))"
proof -
  have m1: "pushFront_max (Some opt) = 1"
    using assms(2,3) by (simp add: pushFront_max_def)
  have t: "truncate_to 1 (JStr (trim cmd) # xs) = [JStr (trim cmd)]" for xs
    by (simp add: truncate_to_def)
  show ?thesis
  proof (cases "pushFront_dedupeHead (Some opt) \<and> head_is (load st) (trim cmd)")
    case True
    then have "pushFront st now cmd (Some opt) = (load st, st)"
      by (simp add: pushFront_def Let_def)
    moreover from True have "load st \<noteq> []" by auto
    ultimately show ?thesis using True by simp
  next
    case False
    then have "pushFront st now cmd (Some opt) =
        ([JStr (trim cmd)], save st [JStr (trim cmd)] now)"
      using assms(1) by (auto simp: pushFront_def Let_def m1 t)
    then show ?thesis using False by auto
  qed
qed

text \<open>
  The theorem at \<^verbatim>\<open>pushFront(" go ", {dedupeHead: true, max: -3})\<close> on absent storage:
  the call stores and returns \<^verbatim>\<open>["go"]\<close>.
\<close>

theorem pushFront_max_clamp_witness:
  "trim (js '' go '') \<noteq> [] \<and> (- 3 :: int) \<le> 0 \<and>
   pushFront None 5 (js '' go '') (Some \<lparr>dedupeHead = Some True, max_opt = Some (- 3)\<rparr>) =
     ([JStr (js ''go'')], save None [JStr (js ''go'')] 5)"
proof -
  have h1: "trim (js '' go '') \<noteq> []" by code_simp
  have t: "trim (js '' go '') = js ''go''" by code_simp
  have l: "load None = []" by code_simp
  from pushFront_max_clamp [OF h1, of "\<lparr>dedupeHead = Some True, max_opt = Some (- 3)\<rparr>" "- 3" None 5]
  show ?thesis using h1 t l by simp
qed

text \<open>
  Claim C10 as stated fails when the head check returns early. After \<^verbatim>\<open>pushFront("b")\<close>
  and \<^verbatim>\<open>pushFront("a")\<close> on absent storage the history is \<^verbatim>\<open>["a","b"]\<close>; then
  \<^verbatim>\<open>pushFront("a", {max: 0})\<close> returns \<^verbatim>\<open>["a","b"]\<close>, of length 2, and inserts
  nothing.
\<close>

theorem pushFront_max_clamp_counterexample:
  "fst (pushFront (snd (pushFront (snd (pushFront None 0 (js ''b'') None)) 1 (js ''a'') None)) 2
          (js ''a'') (Some \<lparr>dedupeHead = None, max_opt = Some 0\<rparr>))
     = [JStr (js ''a''), JStr (js ''b'')] \<and>
   length (fst (pushFront
                  (snd (pushFront (snd (pushFront None 0 (js ''b'') None)) 1 (js ''a'') None)) 2
                  (js ''a'') (Some \<lparr>dedupeHead = None, max_opt = Some 0\<rparr>))) \<noteq> 1"
  by code_simp

section \<open>History navigation\<close>

text \<open>
  Claim C9. With index \<open>-1\<close> for not browsing: no key changes the ring; an "older"
  press (ArrowUp) at index \<open>-1\<close> snapshots the edit buffer, and the snapshot is kept by
  every other press; an "older" press below the last index increments the index and
  sets the buffer to the entry at the new index, and at the last index it changes
  neither; a "newer" press (ArrowDown) above index 0 decrements the index and sets the
  buffer to the entry there, at index 0 it restores the snapshot and resets the index
  to \<open>-1\<close>, and at \<open>-1\<close> it changes nothing. On the ring \<^verbatim>\<open>["c2","c1"]\<close> with the
  buffer \<^verbatim>\<open>"draft"\<close>: older gives (0, "c2"), older gives (1, "c1"), older changes
  nothing, newer gives (0, "c2"), newer gives (-1, "draft").
\<close>

theorem handleKeyDown_navigation:
  "commandHistory (handleKeyDown k s) = commandHistory s \<and>
   (historyIndex s = - 1 \<longrightarrow>
      tempInputBeforeHistory (handleKeyDown ArrowUp s) = inputText s) \<and>
   (k \<noteq> ArrowUp \<or> historyIndex s \<noteq> - 1 \<longrightarrow>
      tempInputBeforeHistory (handleKeyDown k s) = tempInputBeforeHistory s) \<and>
   (- 1 \<le> historyIndex s \<and> historyIndex s < int (length (commandHistory s)) - 1 \<longrightarrow>
      historyIndex (handleKeyDown ArrowUp s) = historyIndex s + 1 \<and>
      inputText (handleKeyDown ArrowUp s) = Some (commandHistory s ! nat (historyIndex s + 1))) \<and>
   (historyIndex s = int (length (commandHistory s)) - 1 \<longrightarrow>
      historyIndex (handleKeyDown ArrowUp s) = historyIndex s \<and>
      inputText (handleKeyDown ArrowUp s) = inputText s) \<and>
   (0 < historyIndex s \<and> historyIndex s \<le> int (length (commandHistory s)) \<longrightarrow>
      historyIndex (handleKeyDown ArrowDown s) = historyIndex s - 1 \<and>
      inputText (handleKeyDown ArrowDown s) = Some (commandHistory s ! nat (historyIndex s - 1))) \<and>
   (historyIndex s = 0 \<longrightarrow>
      historyIndex (handleKeyDown ArrowDown s) = - 1 \<and>
      inputText (handleKeyDown ArrowDown s) = tempInputBeforeHistory s) \<and>
   (historyIndex s = - 1 \<longrightarrow> handleKeyDown ArrowDown s = s) \<and>
   handleKeyDown ArrowUp (ring_state (- 1) '''' ''draft'') = ring_state 0 ''draft'' ''c2'' \<and>
   handleKeyDown ArrowUp (ring_state 0 ''draft'' ''c2'') = ring_state 1 ''draft'' ''c1'' \<and>
   handleKeyDown ArrowUp (ring_state 1 ''draft'' ''c1'') = ring_state 1 ''draft'' ''c1'' \<and>
   handleKeyDown ArrowDown (ring_state 1 ''draft'' ''c1'') = ring_state 0 ''draft'' ''c2'' \<and>
   handleKeyDown ArrowDown (ring_state 0 ''draft'' ''c2'') = ring_state (- 1) ''draft'' ''draft''"
proof -
  have ring: "commandHistory (handleKeyDown k s) = commandHistory s"
    by (cases k) (simp_all add: handleKeyDown_def Let_def)
  have snap: "historyIndex s = - 1 \<longrightarrow>
      tempInputBeforeHistory (handleKeyDown ArrowUp s) = inputText s"
    by (simp add: handleKeyDown_def Let_def)
  have keep: "k \<noteq> ArrowUp \<or> historyIndex s \<noteq> - 1 \<longrightarrow>
      tempInputBeforeHistory (handleKeyDown k s) = tempInputBeforeHistory s"
    by (cases k) (simp_all add: handleKeyDown_def Let_def)
  have older: "- 1 \<le> historyIndex s \<and> historyIndex s < int (length (commandHistory s)) - 1 \<longrightarrow>
      historyIndex (handleKeyDown ArrowUp s) = historyIndex s + 1 \<and>
      inputText (handleKeyDown ArrowUp s) = Some (commandHistory s ! nat (historyIndex s + 1))"
    by (simp add: handleKeyDown_def Let_def js_index_def)
  have oldest: "historyIndex s = int (length (commandHistory s)) - 1 \<longrightarrow>
      historyIndex (handleKeyDown ArrowUp s) = historyIndex s \<and>
      inputText (handleKeyDown ArrowUp s) = inputText s"
    by (simp add: handleKeyDown_def Let_def)
  have newer: "0 < historyIndex s \<and> historyIndex s \<le> int (length (commandHistory s)) \<longrightarrow>
      historyIndex (handleKeyDown ArrowDown s) = historyIndex s - 1 \<and>
      inputText (handleKeyDown ArrowDown s) = Some (commandHistory s ! nat (historyIndex s - 1))"
    by (simp add: handleKeyDown_def js_index_def)
  have restore: "historyIndex s = 0 \<longrightarrow>
      historyIndex (handleKeyDown ArrowDown s) = - 1 \<and>
      inputText (handleKeyDown ArrowDown s) = tempInputBeforeHistory s"
    by (simp add: handleKeyDown_def)
  have idle: "historyIndex s = - 1 \<longrightarrow> handleKeyDown ArrowDown s = s"
    by (simp add: handleKeyDown_def)
  have s1: "handleKeyDown ArrowUp (ring_state (- 1) '''' ''draft'') = ring_state 0 ''draft'' ''c2''"
    by (simp add: handleKeyDown_def ring_state_def Let_def js_index_def)
  have s2: "handleKeyDown ArrowUp (ring_state 0 ''draft'' ''c2'') = ring_state 1 ''draft'' ''c1''"
    by (simp add: handleKeyDown_def ring_state_def Let_def js_index_def)
  have s3: "handleKeyDown ArrowUp (ring_state 1 ''draft'' ''c1'') = ring_state 1 ''draft'' ''c1''"
    by (simp add: handleKeyDown_def ring_state_def Let_def js_index_def)
  have s4: "handleKeyDown ArrowDown (ring_state 1 ''draft'' ''c1'') = ring_state 0 ''draft'' ''c2''"
    by (simp add: handleKeyDown_def ring_state_def Let_def js_index_def)
  have s5: "handleKeyDown ArrowDown (ring_state 0 ''draft'' ''c2'') = ring_state (- 1) ''draft'' ''draft''"
    by (simp add: handleKeyDown_def ring_state_def Let_def js_index_def)
  show ?thesis
    by (intro conjI ring snap keep older oldest newer restore idle s1 s2 s3 s4 s5)
qed

text \<open>
  The theorem on the ring \<^verbatim>\<open>["c2","c1"]\<close>: at index 0 (below the last index, and the
  index from which "newer" restores), at index 1 (the last index, and above 0) and at
  index \<open>-1\<close>.
\<close>

theorem handleKeyDown_navigation_witness:
  "historyIndex (ring_state 0 ''draft'' ''c2'') = 0 \<and>
   length (commandHistory (ring_state 0 ''draft'' ''c2'')) = 2 \<and>
   historyIndex (handleKeyDown ArrowUp (ring_state 0 ''draft'' ''c2'')) = 1 \<and>
   inputText (handleKeyDown ArrowUp (ring_state 0 ''draft'' ''c2'')) = Some (js ''c1'') \<and>
   historyIndex (handleKeyDown ArrowDown (ring_state 0 ''draft'' ''c2'')) = - 1 \<and>
   inputText (handleKeyDown ArrowDown (ring_state 0 ''draft'' ''c2'')) = Some (js ''draft'') \<and>
   tempInputBeforeHistory (handleKeyDown ArrowUp (ring_state 0 ''draft'' ''c2'')) = Some (js ''draft'') \<and>
   historyIndex (ring_state 1 ''draft'' ''c1'') = 1 \<and>
   historyIndex (handleKeyDown ArrowUp (ring_state 1 ''draft'' ''c1'')) = 1 \<and>
   inputText (handleKeyDown ArrowUp (ring_state 1 ''draft'' ''c1'')) = Some (js ''c1'') \<and>
   historyIndex (handleKeyDown ArrowDown (ring_state 1 ''draft'' ''c1'')) = 0 \<and>
   inputText (handleKeyDown ArrowDown (ring_state 1 ''draft'' ''c1'')) = Some (js ''c2'') \<and>
   historyIndex (ring_state (- 1) '''' ''draft'') = - 1 \<and>
   tempInputBeforeHistory (handleKeyDown ArrowUp (ring_state (- 1) '''' ''draft'')) = Some (js ''draft'') \<and>
   handleKeyDown ArrowDown (ring_state (- 1) '''' ''draft'') = ring_state (- 1) '''' ''draft''"
proof -
  have f0: "historyIndex (ring_state 0 ''draft'' ''c2'') = 0"
    "length (commandHistory (ring_state 0 ''draft'' ''c2'')) = 2"
    "commandHistory (ring_state 0 ''draft'' ''c2'') = [js ''c2'', js ''c1'']"
    "tempInputBeforeHistory (ring_state 0 ''draft'' ''c2'') = Some (js ''draft'')"
    by (simp_all add: ring_state_def)
  have f1: "historyIndex (ring_state 1 ''draft'' ''c1'') = 1"
    "length (commandHistory (ring_state 1 ''draft'' ''c1'')) = 2"
    "commandHistory (ring_state 1 ''draft'' ''c1'') = [js ''c2'', js ''c1'']"
    "inputText (ring_state 1 ''draft'' ''c1'') = Some (js ''c1'')"
    by (simp_all add: ring_state_def)
  have f2: "historyIndex (ring_state (- 1) '''' ''draft'') = - 1"
    "inputText (ring_state (- 1) '''' ''draft'') = Some (js ''draft'')"
    by (simp_all add: ring_state_def)
  from handleKeyDown_navigation [of ArrowUp "ring_state 0 ''draft'' ''c2''"]
    handleKeyDown_navigation [of ArrowUp "ring_state 1 ''draft'' ''c1''"]
    handleKeyDown_navigation [of ArrowDown "ring_state (- 1) '''' ''draft''"]
  show ?thesis
    by (simp add: f0 f1 f2)
qed

section \<open>The connection manager\<close>

lemma emit_fields [simp]:
  "port (emit e s) = port s" "reader (emit e s) = reader s" "writer (emit e s) = writer s"
  "connected_val (emit e s) = connected_val s" "baud_val (emit e s) = baud_val s"
  "pairedPortsAvailable_val (emit e s) = pairedPortsAvailable_val s"
  "trace (emit e s) = trace s @ [e]"
  by (simp_all add: emit_def)

lemma checkPairedPorts_fields [simp]:
  "port (checkPairedPorts env s) = port s"
  "reader (checkPairedPorts env s) = reader s"
  "writer (checkPairedPorts env s) = writer s"
  "connected_val (checkPairedPorts env s) = connected_val s"
  "baud_val (checkPairedPorts env s) = baud_val s"
  by (simp_all add: checkPairedPorts_def split: sum.splits)


lemma disconnect_fields [simp]:
  "port (disconnect env s) = None"
  "reader (disconnect env s) = None"
  "writer (disconnect env s) = None"
  "connected_val (disconnect env s) = False"
  "baud_val (disconnect env s) = baud_val s"
  by (simp_all add: disconnect_def Let_def split: option.splits)







text \<open>
  Claim C5. For every text, \<open>send\<close> on a service that holds no writer fails with
  \<open>NotConnected\<close> and returns the service exactly as it was: no field changes and no
  event is added to the trace, so no write is attempted.
\<close>

theorem send_not_connected:
  assumes "writer s = None"
  shows "send env text s = (Inl NotConnected, s) \<and>
         events_since s (snd (send env text s)) = []"
  using assms by (simp add: send_def events_since_def)

text \<open>The theorem on the initial service, which holds no writer.\<close>

theorem send_not_connected_witness:
  "writer initial_service = None \<and>
   send (example_platform True True) (js ''hi'') initial_service =
     (Inl NotConnected, initial_service)"
proof -
  have h: "writer initial_service = None"
    by (simp add: initial_service_def)
  from send_not_connected [OF h, of "example_platform True True" "js ''hi''"] h
  show ?thesis by simp
qed

section \<open>Tasks and their interleavings\<close>

text \<open>
  The \<open>disconnect\<close> of the section on the service is the schedule in which the steps
  of one \<^verbatim>\<open>disconnect\<close> follow each other.
\<close>

lemma disconnect_uninterrupted:
  "run (isSupported env) (uninterrupted_disconnect env s (length ts)) \<lparr>svc = s, tasks = ts\<rparr> =
     Some \<lparr>svc = disconnect env s, tasks = ts @ [Done (Inr ())]\<rparr>"
  by (cases "reader s"; cases "writer s"; cases "port s"; cases "isSupported env";
      cases "getPorts env (trace s @ teardown_events s)")
    (simp_all add: uninterrupted_disconnect_def getPorts_outcome_def step_def call_def
      start_disconnect_def resume_disconnect_def enter_checkPairedPorts_def after_disconnect_def
      cancel_reader_def release_reader_def close_writer_def release_writer_def
      publish_disconnected_def set_paired_def disconnect_def checkPairedPorts_def
      teardown_events_def emit_def Let_def nth_append)

subsection \<open>Connectivity is published properly by every step\<close>

lemma set_paired_fields [simp]:
  "port (set_paired b s) = port s" "reader (set_paired b s) = reader s"
  "writer (set_paired b s) = writer s" "connected_val (set_paired b s) = connected_val s"
  "baud_val (set_paired b s) = baud_val s"
  "pairedPortsAvailable_val (set_paired b s) = b"
  "trace (set_paired b s) = trace s @ [PairedNext b]"
  by (simp_all add: set_paired_def)

lemma publish_ok_append:
  "publish_ok v (xs @ ys) = (publish_ok v xs \<and> publish_ok (publish_val v xs) ys)"
  by (induction v xs rule: publish_ok.induct) auto

lemma publish_val_append: "publish_val v (xs @ ys) = publish_val (publish_val v xs) ys"
  by (induction v xs rule: publish_val.induct) auto

lemma tracks_refl: "tracks s s"
  by (simp add: tracks_def)

lemma tracks_trans:
  assumes "tracks s s'" and "tracks s' s''"
  shows "tracks s s''"
proof -
  from assms(1) obtain xs where xs: "trace s' = trace s @ xs"
    "publish_ok (connected_val s) xs" "connected_val s' = publish_val (connected_val s) xs"
    by (auto simp: tracks_def)
  from assms(2) obtain ys where ys: "trace s'' = trace s' @ ys"
    "publish_ok (connected_val s') ys" "connected_val s'' = publish_val (connected_val s') ys"
    by (auto simp: tracks_def)
  have "trace s'' = trace s @ (xs @ ys)"
    using xs(1) ys(1) by simp
  moreover have "publish_ok (connected_val s) (xs @ ys)"
    using xs ys by (simp add: publish_ok_append)
  moreover have "connected_val s'' = publish_val (connected_val s) (xs @ ys)"
    using xs ys by (simp add: publish_val_append)
  ultimately show ?thesis
    unfolding tracks_def by blast
qed

lemma tracks_events:
  assumes "tracks s s'"
  shows "trace s' = trace s @ events_since s s'"
    and "publish_ok (connected_val s) (events_since s s')"
    and "connected_val s' = publish_val (connected_val s) (events_since s s')"
  using assms by (auto simp: tracks_def events_since_def)

lemma tracks_emit: "\<not> is_connectivity e \<Longrightarrow> tracks s (emit e s)"
  by (cases e) (simp_all add: tracks_def)

lemma tracks_quiet:
  assumes "trace s' = trace s" and "connected_val s' = connected_val s"
  shows "tracks s s'"
  using assms by (simp add: tracks_def)

lemma cancel_reader_fields [simp]:
  "port (cancel_reader s) = port s" "reader (cancel_reader s) = reader s"
  "writer (cancel_reader s) = writer s" "connected_val (cancel_reader s) = connected_val s"
  "baud_val (cancel_reader s) = baud_val s"
  "pairedPortsAvailable_val (cancel_reader s) = pairedPortsAvailable_val s"
  by (simp_all add: cancel_reader_def split: option.splits)

lemma release_reader_fields [simp]:
  "port (release_reader s) = port s" "reader (release_reader s) = None"
  "writer (release_reader s) = writer s" "connected_val (release_reader s) = connected_val s"
  "baud_val (release_reader s) = baud_val s"
  "pairedPortsAvailable_val (release_reader s) = pairedPortsAvailable_val s"
  by (simp_all add: release_reader_def split: option.splits)

lemma close_writer_fields [simp]:
  "port (close_writer s) = port s" "reader (close_writer s) = reader s"
  "writer (close_writer s) = writer s" "connected_val (close_writer s) = connected_val s"
  "baud_val (close_writer s) = baud_val s"
  "pairedPortsAvailable_val (close_writer s) = pairedPortsAvailable_val s"
  by (simp_all add: close_writer_def split: option.splits)

lemma release_writer_fields [simp]:
  "port (release_writer s) = port s" "reader (release_writer s) = reader s"
  "writer (release_writer s) = None" "connected_val (release_writer s) = connected_val s"
  "baud_val (release_writer s) = baud_val s"
  "pairedPortsAvailable_val (release_writer s) = pairedPortsAvailable_val s"
  by (simp_all add: release_writer_def split: option.splits)

lemma log_text_fields [simp]:
  "port (log_text t s) = port s" "reader (log_text t s) = reader s"
  "writer (log_text t s) = writer s" "connected_val (log_text t s) = connected_val s"
  "baud_val (log_text t s) = baud_val s"
  "pairedPortsAvailable_val (log_text t s) = pairedPortsAvailable_val s"
  by (simp_all add: log_text_def)

lemma publish_disconnected_fields [simp]:
  "port (publish_disconnected s) = port s" "reader (publish_disconnected s) = reader s"
  "writer (publish_disconnected s) = writer s" "connected_val (publish_disconnected s) = False"
  "baud_val (publish_disconnected s) = baud_val s"
  "pairedPortsAvailable_val (publish_disconnected s) = pairedPortsAvailable_val s"
  by (simp_all add: publish_disconnected_def)

lemma cancel_reader_tracks: "tracks s (cancel_reader s)"
  by (simp add: cancel_reader_def tracks_def split: option.splits)

lemma release_reader_tracks: "tracks s (release_reader s)"
  by (simp add: release_reader_def tracks_def split: option.splits)

lemma close_writer_tracks: "tracks s (close_writer s)"
  by (simp add: close_writer_def tracks_def split: option.splits)

lemma release_writer_tracks: "tracks s (release_writer s)"
  by (simp add: release_writer_def tracks_def split: option.splits)

lemma log_text_tracks: "tracks s (log_text t s)"
  by (simp add: log_text_def tracks_def)

lemma publish_disconnected_tracks: "tracks s (publish_disconnected s)"
  by (simp add: publish_disconnected_def tracks_def)

lemma set_paired_tracks: "tracks s (set_paired b s)"
  by (simp add: tracks_def)

lemma start_disconnect_tracks: "start_disconnect k s = (s', r) \<Longrightarrow> tracks s s'"
  by (auto simp: start_disconnect_def cancel_reader_tracks)

lemma enter_checkPairedPorts_tracks: "enter_checkPairedPorts api k s = (s', r) \<Longrightarrow> tracks s s'"
  by (auto simp: enter_checkPairedPorts_def tracks_def split: if_splits)

lemma after_disconnect_tracks: "after_disconnect k s = (s', r) \<Longrightarrow> tracks s s'"
  by (cases k)
     (auto simp: after_disconnect_def tracks_refl tracks_emit start_disconnect_def
        cancel_reader_tracks)

lemma resume_disconnect_tracks:
  assumes "resume_disconnect api pc k out s = Some (s', r)"
  shows "tracks s s'"
proof (cases pc)
  case AwaitCancel
  with assms have "s' = close_writer (release_reader s)"
    by (auto simp: resume_disconnect_def split: if_splits)
  then show ?thesis
    using tracks_trans [OF release_reader_tracks close_writer_tracks] by simp
next
  case AwaitWriterClose
  show ?thesis
  proof (cases "port (release_writer s)")
    case None
    with assms AwaitWriterClose
    have "enter_checkPairedPorts api k ((release_writer s)\<lparr>port := None\<rparr>) = (s', r)"
      by (auto simp: resume_disconnect_def split: if_splits)
    then have "tracks ((release_writer s)\<lparr>port := None\<rparr>) s'"
      by (rule enter_checkPairedPorts_tracks)
    moreover have "tracks (release_writer s) ((release_writer s)\<lparr>port := None\<rparr>)"
      by (rule tracks_quiet) simp_all
    ultimately show ?thesis
      using release_writer_tracks tracks_trans by blast
  next
    case (Some p)
    with assms AwaitWriterClose have "s' = emit (PortClose p) (release_writer s)"
      by (auto simp: resume_disconnect_def split: if_splits)
    then show ?thesis
      using tracks_trans [OF release_writer_tracks tracks_emit [of "PortClose p"]] by simp
  qed
next
  case AwaitPortClose
  with assms have "enter_checkPairedPorts api k (s\<lparr>port := None\<rparr>) = (s', r)"
    by (auto simp: resume_disconnect_def split: if_splits)
  then have "tracks (s\<lparr>port := None\<rparr>) s'"
    by (rule enter_checkPairedPorts_tracks)
  moreover have "tracks s (s\<lparr>port := None\<rparr>)"
    by (rule tracks_quiet) simp_all
  ultimately show ?thesis
    by (rule tracks_trans [rotated])
next
  case AwaitGetPorts
  with assms show ?thesis
    by (auto simp: resume_disconnect_def set_paired_tracks split: option.splits)
next
  case AwaitPaired
  with assms show ?thesis
    by (auto simp: resume_disconnect_def publish_disconnected_tracks split: if_splits)
next
  case AwaitReturn
  with assms show ?thesis
    by (auto simp: resume_disconnect_def split: if_splits dest: after_disconnect_tracks)
qed

lemma readLoop_finally_tracks: "readLoop_finally tail s = (s', r) \<Longrightarrow> tracks s s'"
  unfolding readLoop_finally_def start_disconnect_def
  using tracks_trans [OF log_text_tracks
      tracks_trans [OF release_reader_tracks cancel_reader_tracks]]
  by auto

lemma resume_readLoop_tracks:
  assumes "resume_readLoop out s = Some (s', r)"
  shows "tracks s s'"
proof -
  from assms obtain res tail where out: "out = Read res tail"
    by (cases out) (auto simp: resume_readLoop_def)
  show ?thesis
  proof (cases res)
    case (Value chunk)
    show ?thesis
    proof (cases "reader s")
      case None
      with assms out Value
      have "readLoop_finally tail
          (emit (LogNext (read_error_text null_reader_error)) (log_text chunk s)) = (s', r)"
        by (simp add: resume_readLoop_def)
      from readLoop_finally_tracks [OF this]
        tracks_trans [OF log_text_tracks
          tracks_emit [of "LogNext (read_error_text null_reader_error)"]]
      show ?thesis
        using tracks_trans by fastforce
    next
      case (Some r0)
      with assms out Value have "s' = emit (ReaderRead r0) (log_text chunk s)"
        by (simp add: resume_readLoop_def)
      then show ?thesis
        using tracks_trans [OF log_text_tracks tracks_emit [of "ReaderRead r0"]] by simp
    qed
  next
    case EndOfStream
    with assms out show ?thesis
      by (auto simp: resume_readLoop_def dest: readLoop_finally_tracks)
  next
    case (ReadError err)
    with assms out
    have "readLoop_finally tail (emit (LogNext (read_error_text err)) s) = (s', r)"
      by (simp add: resume_readLoop_def)
    from readLoop_finally_tracks [OF this] tracks_emit [of "LogNext (read_error_text err)" s]
    show ?thesis
      using tracks_trans by fastforce
  qed
qed

lemma resume_open_tracks: "resume_open p b out s = Some (s', r) \<Longrightarrow> tracks s s'"
  by (auto simp: resume_open_def tracks_def Let_def start_disconnect_def cancel_reader_def
      split: outcome.splits if_splits option.splits)

lemma resume_send_tracks: "resume_send out s = Some (s', r) \<Longrightarrow> tracks s s'"
  by (auto simp: resume_send_def tracks_refl start_disconnect_def cancel_reader_tracks
      split: outcome.splits)

lemma resume_pairedCheck_tracks: "resume_pairedCheck out s = Some (s', r) \<Longrightarrow> tracks s s'"
  by (auto simp: resume_pairedCheck_def set_paired_tracks split: option.splits)

lemma resume_tracks: "resume api t out s = Some (s', r) \<Longrightarrow> tracks s s'"
  by (cases t)
     (auto dest: resume_disconnect_tracks resume_readLoop_tracks resume_open_tracks
        resume_send_tracks resume_pairedCheck_tracks)

lemma call_tracks: "call api act s = Some (s', r) \<Longrightarrow> tracks s s'"
  by (cases act)
     (auto simp: call_def tracks_refl tracks_emit start_disconnect_def cancel_reader_tracks
        intro: tracks_trans [OF tracks_emit cancel_reader_tracks]
      split: option.splits if_splits)

lemma step_tracks:
  assumes "step api act c = Some c'"
  shows "tracks (svc c) (svc c')"
proof (cases act)
  case (Resume i out)
  with assms show ?thesis
    by (auto simp: step_def split: if_splits option.splits dest: resume_tracks)
qed (use assms in \<open>auto simp: step_def split: option.splits dest: call_tracks\<close>)

lemma run_tracks: "run api acts c = Some c' \<Longrightarrow> tracks (svc c) (svc c')"
proof (induction acts arbitrary: c)
  case Nil
  then show ?case by (simp add: tracks_refl)
next
  case (Cons act acts)
  then obtain c1 where s: "step api act c = Some c1" and r: "run api acts c1 = Some c'"
    by (auto split: option.splits)
  from step_tracks [OF s] Cons.IH [OF r] show ?case
    by (rule tracks_trans)
qed

subsection \<open>The teardown before the open\<close>





lemma seen_update [simp]:
  "seen n (s\<lparr>reader := x\<rparr>) = seen n s" "seen n (s\<lparr>writer := y\<rparr>) = seen n s"
  "seen n (s\<lparr>port := z\<rparr>) = seen n s" "seen n (s\<lparr>connected_val := v\<rparr>) = seen n s"
  "seen n (s\<lparr>pairedPortsAvailable_val := w\<rparr>) = seen n s"
  by (simp_all add: seen_def)















subsection \<open>After the open\<close>




lemma start_disconnect_handles:
  "start_disconnect k s = (s', t', sp) \<Longrightarrow>
   port s' = port s \<and> reader s' = reader s \<and> writer s' = writer s \<and>
   t' = Disconnecting AwaitCancel k \<and> sp = []"
  by (auto simp: start_disconnect_def)











subsection \<open>The invariants along a run\<close>















subsection \<open>Disconnecting\<close>

lemma idle_eq:
  assumes "port s = None" and "reader s = None" and "writer s = None" and "\<not> connected_val s"
  shows "cancel_reader s = s" and "release_reader s = s" and "close_writer s = s"
    and "release_writer s = s" and "s\<lparr>port := None\<rparr> = s" and "publish_disconnected s = s"
  using assms
  by (cases s; simp add: cancel_reader_def release_reader_def close_writer_def
      release_writer_def publish_disconnected_def)+

lemma step_Call_disconnect:
  "step api Call_disconnect c =
     Some \<lparr>svc = cancel_reader (svc c), tasks = tasks c @ [Disconnecting AwaitCancel TopLevel]\<rparr>"
  by (simp add: step_def call_def start_disconnect_def)

lemma step_Resume_disconnect:
  assumes "i < length (tasks c)" and "tasks c ! i = Disconnecting pc k"
  shows "step api (Resume i out) c =
     (case resume_disconnect api pc k out (svc c) of
        None \<Rightarrow> None
      | Some (s, t, ts) \<Rightarrow> Some \<lparr>svc = s, tasks = (tasks c)[i := t] @ ts\<rparr>)"
  using assms by (simp add: step_def)

lemma disconnect_proceeds:
  assumes "i < length (tasks c)" and "tasks c ! i = Disconnecting pc k"
    and "(pc = AwaitCancel \<or> pc = AwaitWriterClose \<or> pc = AwaitPortClose) \<and> swallowed out \<or>
         pc = AwaitGetPorts \<and> (out = Rejected err \<or> out = Ports ps) \<or>
         (pc = AwaitPaired \<or> pc = AwaitReturn) \<and> out = Resolved"
  shows "step api (Resume i out) c \<noteq> None"
  using assms(3)
  by (cases pc)
    (auto simp: step_Resume_disconnect [OF assms(1,2)] resume_disconnect_def
      enter_checkPairedPorts_def after_disconnect_def start_disconnect_def
      split: option.splits caller.splits)

lemma disconnect_resolves:
  assumes "i < length (tasks c)" and "tasks c ! i = Disconnecting pc TopLevel"
    and "step api (Resume i out) c = Some c'"
  shows "tasks c' ! i = Done (Inr ()) \<or> (\<exists>pc'. tasks c' ! i = Disconnecting pc' TopLevel)"
  using assms(3) assms(1)
  by (cases pc)
    (auto simp: step_Resume_disconnect [OF assms(1,2)] resume_disconnect_def
      enter_checkPairedPorts_def after_disconnect_def nth_append
      split: option.splits if_splits)

lemma disconnect_clears:
  assumes "i < length (tasks c)" and "tasks c ! i = Disconnecting pc k"
    and "step api (Resume i out) c = Some c'"
  shows "(pc = AwaitCancel \<longrightarrow> reader (svc c') = None) \<and>
         (pc = AwaitWriterClose \<longrightarrow> writer (svc c') = None) \<and>
         (pc = AwaitPortClose \<longrightarrow> port (svc c') = None) \<and>
         (pc = AwaitPaired \<longrightarrow>
            \<not> connected_val (svc c') \<and>
            events_since (svc c) (svc c') =
              (if connected_val (svc c) then [ConnectedNext False] else []))"
  using assms(3)
  by (cases pc)
    (auto simp: step_Resume_disconnect [OF assms(1,2)] resume_disconnect_def
      enter_checkPairedPorts_def publish_disconnected_def events_since_def
      split: option.splits if_splits)

lemma disconnect_idle_frame:
  assumes idle: "port (svc c) = None" "reader (svc c) = None" "writer (svc c) = None"
      "\<not> connected_val (svc c)"
    and "i < length (tasks c)" and "tasks c ! i = Disconnecting pc k"
    and "pc \<noteq> AwaitReturn \<or> k = TopLevel \<or> k = FromReadLoop"
    and "step api (Resume i out) c = Some c'"
  shows "svc c' = svc c \<or> (api \<and> svc c' = emit GetPorts (svc c)) \<or>
         (pc = AwaitGetPorts \<and> (\<exists>v. paired_result out = Some v \<and> svc c' = set_paired v (svc c)))"
proof -
  note eqs = idle_eq [OF idle]
  show ?thesis
    using assms(7,8)
    by (cases pc)
      (auto simp: step_Resume_disconnect [OF assms(5,6)] resume_disconnect_def
        enter_checkPairedPorts_def after_disconnect_def eqs idle
        split: option.splits if_splits)
qed

lemma publish_val_quiet:
  "\<not> v \<Longrightarrow> ConnectedNext True \<notin> set evs \<Longrightarrow> \<not> publish_val v evs"
  by (induction v evs rule: publish_val.induct) auto

lemma publish_ok_session:
  "publish_ok v evs \<Longrightarrow> ConnectedNext True \<notin> set evs \<Longrightarrow>
   filter is_connectivity evs = (if v \<and> \<not> publish_val v evs then [ConnectedNext False] else [])"
proof (induction v evs rule: publish_ok.induct)
  case (1 v)
  then show ?case by simp
next
  case (2 v b es)
  then have b: "\<not> b" and v: "v" and ok: "publish_ok False es"
    and no: "ConnectedNext True \<notin> set es"
    by auto
  from 2 b ok no have "filter is_connectivity es = []" by simp
  moreover have "\<not> publish_val False es"
    using no by (simp add: publish_val_quiet)
  ultimately show ?case using b v by simp
qed simp_all

text \<open>
  Claim C3. In every configuration, whatever tasks are pending: a call of
  \<^verbatim>\<open>disconnect\<close> starts and throws nothing; each of its awaits goes on once the
  promise has settled, the three awaits of the teardown whether it resolves or rejects;
  and a \<^verbatim>\<open>disconnect\<close> called from outside ends by returning, never by throwing. Its steps clear what the service holds: the
  step after the first await ends with the reader cleared, the one after the second
  with the writer cleared, the one after the third with the port cleared, and the one
  after the refresh of availability with connectivity false, published as false in
  that step iff it was true. On a service that holds no port, reader or writer and
  whose connectivity is false, the call of \<^verbatim>\<open>disconnect\<close> leaves the service exactly as
  it is, and so does each of its steps, but for the refresh of availability, which
  calls \<^verbatim>\<open>getPorts\<close> and publishes its answer as the availability flag: the port,
  the reader, the writer, the connectivity flag and the baud rate are unchanged and no
  connectivity value is published. The state is unchanged in this sense, the refresh of
  availability being a step of every \<^verbatim>\<open>disconnect\<close>. In every run of every schedule,
  with any calls and any interleaving of their steps and those of the read loop,
  connectivity false is published only when the current value is true, and the flag is
  the value last published; so in a run in which no session is opened, connectivity
  false is published once if the run starts connected and ends disconnected, and not at
  all otherwise. A second \<^verbatim>\<open>disconnect\<close>, and the \<^verbatim>\<open>disconnect\<close> of a read loop that
  races with the first, publish no duplicate.
\<close>

theorem disconnect_idempotent_once:
  "step api Call_disconnect c =
     Some \<lparr>svc = cancel_reader (svc c),
           tasks = tasks c @ [Disconnecting AwaitCancel TopLevel]\<rparr> \<and>
   (i < length (tasks c) \<and> tasks c ! i = Disconnecting pc k \<and>
    ((pc = AwaitCancel \<or> pc = AwaitWriterClose \<or> pc = AwaitPortClose) \<and> swallowed out \<or>
     pc = AwaitGetPorts \<and> (out = Rejected err \<or> out = Ports ps) \<or>
     (pc = AwaitPaired \<or> pc = AwaitReturn) \<and> out = Resolved) \<longrightarrow>
      step api (Resume i out) c \<noteq> None) \<and>
   (i < length (tasks c) \<and> tasks c ! i = Disconnecting pc TopLevel \<and>
    step api (Resume i out) c = Some c' \<longrightarrow>
      tasks c' ! i = Done (Inr ()) \<or> (\<exists>pc'. tasks c' ! i = Disconnecting pc' TopLevel)) \<and>
   (i < length (tasks c) \<and> tasks c ! i = Disconnecting pc k \<and>
    step api (Resume i out) c = Some c' \<longrightarrow>
      (pc = AwaitCancel \<longrightarrow> reader (svc c') = None) \<and>
      (pc = AwaitWriterClose \<longrightarrow> writer (svc c') = None) \<and>
      (pc = AwaitPortClose \<longrightarrow> port (svc c') = None) \<and>
      (pc = AwaitPaired \<longrightarrow>
         \<not> connected_val (svc c') \<and>
         events_since (svc c) (svc c') =
           (if connected_val (svc c) then [ConnectedNext False] else []))) \<and>
   (port (svc c) = None \<and> reader (svc c) = None \<and> writer (svc c) = None \<and>
    \<not> connected_val (svc c) \<longrightarrow>
      step api Call_disconnect c =
        Some \<lparr>svc = svc c, tasks = tasks c @ [Disconnecting AwaitCancel TopLevel]\<rparr> \<and>
      (i < length (tasks c) \<and> tasks c ! i = Disconnecting pc k \<and>
       (pc \<noteq> AwaitReturn \<or> k = TopLevel \<or> k = FromReadLoop) \<and>
       step api (Resume i out) c = Some c' \<longrightarrow>
         svc c' = svc c \<or> (api \<and> svc c' = emit GetPorts (svc c)) \<or>
         (pc = AwaitGetPorts \<and>
          (\<exists>v. paired_result out = Some v \<and> svc c' = set_paired v (svc c))))) \<and>
   (run api acts c = Some c'' \<longrightarrow>
      publish_ok (connected_val (svc c)) (events_since (svc c) (svc c'')) \<and>
      connected_val (svc c'') =
        publish_val (connected_val (svc c)) (events_since (svc c) (svc c'')) \<and>
      (ConnectedNext True \<notin> set (events_since (svc c) (svc c'')) \<longrightarrow>
         filter is_connectivity (events_since (svc c) (svc c'')) =
           (if connected_val (svc c) \<and> \<not> connected_val (svc c'')
            then [ConnectedNext False] else [])))"
proof -
  have a: "step api Call_disconnect c =
     Some \<lparr>svc = cancel_reader (svc c),
           tasks = tasks c @ [Disconnecting AwaitCancel TopLevel]\<rparr>"
    by (rule step_Call_disconnect)
  have b: "i < length (tasks c) \<and> tasks c ! i = Disconnecting pc k \<and>
    ((pc = AwaitCancel \<or> pc = AwaitWriterClose \<or> pc = AwaitPortClose) \<and> swallowed out \<or>
     pc = AwaitGetPorts \<and> (out = Rejected err \<or> out = Ports ps) \<or>
     (pc = AwaitPaired \<or> pc = AwaitReturn) \<and> out = Resolved) \<longrightarrow>
      step api (Resume i out) c \<noteq> None"
    using disconnect_proceeds [where i = i and c = c and pc = pc and k = k and out = out
        and err = err and ps = ps and api = api]
    by blast
  have r: "i < length (tasks c) \<and> tasks c ! i = Disconnecting pc TopLevel \<and>
    step api (Resume i out) c = Some c' \<longrightarrow>
      tasks c' ! i = Done (Inr ()) \<or> (\<exists>pc'. tasks c' ! i = Disconnecting pc' TopLevel)"
    using disconnect_resolves [of i c pc api out c'] by blast
  have d: "i < length (tasks c) \<and> tasks c ! i = Disconnecting pc k \<and>
    step api (Resume i out) c = Some c' \<longrightarrow>
      (pc = AwaitCancel \<longrightarrow> reader (svc c') = None) \<and>
      (pc = AwaitWriterClose \<longrightarrow> writer (svc c') = None) \<and>
      (pc = AwaitPortClose \<longrightarrow> port (svc c') = None) \<and>
      (pc = AwaitPaired \<longrightarrow>
         \<not> connected_val (svc c') \<and>
         events_since (svc c) (svc c') =
           (if connected_val (svc c) then [ConnectedNext False] else []))"
    using disconnect_clears [of i c pc k api out c'] by blast
  have e: "port (svc c) = None \<and> reader (svc c) = None \<and> writer (svc c) = None \<and>
    \<not> connected_val (svc c) \<longrightarrow>
      step api Call_disconnect c =
        Some \<lparr>svc = svc c, tasks = tasks c @ [Disconnecting AwaitCancel TopLevel]\<rparr> \<and>
      (i < length (tasks c) \<and> tasks c ! i = Disconnecting pc k \<and>
       (pc \<noteq> AwaitReturn \<or> k = TopLevel \<or> k = FromReadLoop) \<and>
       step api (Resume i out) c = Some c' \<longrightarrow>
         svc c' = svc c \<or> (api \<and> svc c' = emit GetPorts (svc c)) \<or>
         (pc = AwaitGetPorts \<and>
          (\<exists>v. paired_result out = Some v \<and> svc c' = set_paired v (svc c))))"
  proof (intro impI conjI)
    assume idle: "port (svc c) = None \<and> reader (svc c) = None \<and> writer (svc c) = None \<and>
      \<not> connected_val (svc c)"
    then show "step api Call_disconnect c =
        Some \<lparr>svc = svc c, tasks = tasks c @ [Disconnecting AwaitCancel TopLevel]\<rparr>"
      by (simp add: step_Call_disconnect idle_eq)
    assume "i < length (tasks c) \<and> tasks c ! i = Disconnecting pc k \<and>
       (pc \<noteq> AwaitReturn \<or> k = TopLevel \<or> k = FromReadLoop) \<and>
       step api (Resume i out) c = Some c'"
    with idle disconnect_idle_frame [of c i pc k api out c']
    show "svc c' = svc c \<or> (api \<and> svc c' = emit GetPorts (svc c)) \<or>
         (pc = AwaitGetPorts \<and>
          (\<exists>v. paired_result out = Some v \<and> svc c' = set_paired v (svc c)))"
      by blast
  qed
  have f: "run api acts c = Some c'' \<longrightarrow>
      publish_ok (connected_val (svc c)) (events_since (svc c) (svc c'')) \<and>
      connected_val (svc c'') =
        publish_val (connected_val (svc c)) (events_since (svc c) (svc c'')) \<and>
      (ConnectedNext True \<notin> set (events_since (svc c) (svc c'')) \<longrightarrow>
         filter is_connectivity (events_since (svc c) (svc c'')) =
           (if connected_val (svc c) \<and> \<not> connected_val (svc c'')
            then [ConnectedNext False] else []))"
  proof
    assume "run api acts c = Some c''"
    then have t: "tracks (svc c) (svc c'')" by (rule run_tracks)
    have ok: "publish_ok (connected_val (svc c)) (events_since (svc c) (svc c''))"
      and val: "connected_val (svc c'') =
        publish_val (connected_val (svc c)) (events_since (svc c) (svc c''))"
      using tracks_events [OF t] by simp_all
    have "ConnectedNext True \<notin> set (events_since (svc c) (svc c'')) \<longrightarrow>
         filter is_connectivity (events_since (svc c) (svc c'')) =
           (if connected_val (svc c) \<and> \<not> connected_val (svc c'')
            then [ConnectedNext False] else [])"
      using publish_ok_session [OF ok] val by simp
    with ok val show "publish_ok (connected_val (svc c)) (events_since (svc c) (svc c'')) \<and>
      connected_val (svc c'') =
        publish_val (connected_val (svc c)) (events_since (svc c) (svc c'')) \<and>
      (ConnectedNext True \<notin> set (events_since (svc c) (svc c'')) \<longrightarrow>
         filter is_connectivity (events_since (svc c) (svc c'')) =
           (if connected_val (svc c) \<and> \<not> connected_val (svc c'')
            then [ConnectedNext False] else []))"
      by blast
  qed
  from a b r d e f show ?thesis by (intro conjI)
qed

text \<open>
  The theorem on the example run: \<^verbatim>\<open>disconnect\<close> on \<open>session_7\<close>, interleaved with the
  \<^verbatim>\<open>disconnect\<close> of the read loop it ends, publishes connectivity false once; a
  \<^verbatim>\<open>disconnect\<close> called on the disconnected service \<open>closed_7\<close> that results changes
  nothing in its first two steps.
\<close>

theorem disconnect_idempotent_once_witness:
  "run True disconnect_race session_7 = Some closed_7 \<and>
   connected_val (svc session_7) \<and> \<not> connected_val (svc closed_7) \<and>
   ConnectedNext True \<notin> set (events_since (svc session_7) (svc closed_7)) \<and>
   filter is_connectivity (events_since (svc session_7) (svc closed_7)) = [ConnectedNext False] \<and>
   port (svc closed_7) = None \<and> reader (svc closed_7) = None \<and> writer (svc closed_7) = None \<and>
   step True Call_disconnect closed_7 =
     Some \<lparr>svc = svc closed_7, tasks = tasks closed_7 @ [Disconnecting AwaitCancel TopLevel]\<rparr> \<and>
   step True (Resume 4 Resolved)
     \<lparr>svc = svc closed_7, tasks = tasks closed_7 @ [Disconnecting AwaitCancel TopLevel]\<rparr> =
     Some \<lparr>svc = svc closed_7,
           tasks = tasks closed_7 @ [Disconnecting AwaitWriterClose TopLevel]\<rparr>"
proof -
  let ?c = "\<lparr>svc = svc closed_7, tasks = tasks closed_7 @ [Disconnecting AwaitCancel TopLevel]\<rparr>"
  have r: "run True disconnect_race session_7 = Some closed_7"
    by code_simp
  have v: "connected_val (svc session_7)" "\<not> connected_val (svc closed_7)"
    by (simp_all add: session_7_def closed_7_def)
  have n: "ConnectedNext True \<notin> set (events_since (svc session_7) (svc closed_7))"
    by code_simp
  have i: "port (svc closed_7) = None" "reader (svc closed_7) = None"
    "writer (svc closed_7) = None"
    by (simp_all add: closed_7_def)
  have once: "filter is_connectivity (events_since (svc session_7) (svc closed_7)) =
      [ConnectedNext False]"
    using disconnect_idempotent_once [where api = True and c = session_7
        and acts = disconnect_race and c'' = closed_7] r v n
    by simp
  have again: "step True Call_disconnect closed_7 = Some ?c"
    using disconnect_idempotent_once [where api = True and c = closed_7] i v(2)
    by blast
  have s: "step True (Resume 4 Resolved) ?c =
      Some \<lparr>svc = svc closed_7,
            tasks = tasks closed_7 @ [Disconnecting AwaitWriterClose TopLevel]\<rparr>"
    by code_simp
  show ?thesis
    using r v n once i again s by (intro conjI)
qed

text \<open>
  The refresh of availability is the one effect of a \<^verbatim>\<open>disconnect\<close> on a disconnected
  service, and it can change the flag: the constructor's check finds no paired port,
  a port is paired afterwards, and a \<^verbatim>\<open>disconnect\<close> then publishes availability true.
\<close>

lemma disconnect_idle_refreshes_availability:
  "run True [Resume 0 (Ports [])] (constructed True) =
     Some \<lparr>svc = initial_service\<lparr>trace := [GetPorts, PairedNext False]\<rparr>,
           tasks = [Done (Inr ())]\<rparr> \<and>
   run True
     [Call_disconnect, Resume 1 Resolved, Resume 1 Resolved, Resume 1 (Ports [7]),
      Resume 1 Resolved, Resume 1 Resolved]
     \<lparr>svc = initial_service\<lparr>trace := [GetPorts, PairedNext False]\<rparr>,
      tasks = [Done (Inr ())]\<rparr> =
     Some \<lparr>svc = initial_service
             \<lparr>pairedPortsAvailable_val := True,
              trace := [GetPorts, PairedNext False, GetPorts, PairedNext True]\<rparr>,
           tasks = [Done (Inr ()), Done (Inr ())]\<rparr>"
  by code_simp

end
